theory Spec2Isabelle
  imports Main
begin

section \<open>Data model (types.ts)\<close>

text \<open>
  The interfaces of the application, as records. A field whose name is used by two
  interfaces carries a prefix (\<open>oc_\<close> for ChapterOutline, \<open>ol_\<close> for BookOutline,
  \<open>src_\<close> for Source); the field \<open>id\<close> of BookProject is \<open>project_id\<close>.
  An optional field (\<open>x?: T\<close>) and a nullable one (\<open>T | null\<close>) are options.
  JavaScript numbers that hold chapter numbers and time stamps are integers.
\<close>

datatype SourceType = AUDIO | TEXT | IMAGE

record Source =
  src_id :: string
  src_type :: SourceType
  src_content :: string
  src_mimeType :: "string option"
  src_name :: string
  src_transcription :: "string option"
  src_isProcessing :: bool

record ChapterOutline =
  oc_chapterNumber :: int
  oc_title :: string
  summary :: string

datatype WritingStyle = standard | literary | humorous | technical | simple | sarcastic

record BookOutline =
  ol_title :: string
  description :: string
  ol_chapters :: "ChapterOutline list"
  coverImage :: "string option"
  backCoverImage :: "string option"

record ChapterContent =
  chapterNumber :: int
  ch_title :: string
  content :: string
  isGenerating :: bool

record BookProject =
  project_id :: string
  title :: string
  lastModified :: int
  sources :: "Source list"
  outline :: "BookOutline option"
  chapters :: "ChapterContent list"
  currentStep :: int
  seriesId :: "string option"
  seriesIndex :: "int option"
  audioVoice :: "string option"

section \<open>The generative backend and the world of effects\<close>

text \<open>
  A value thrown by the backend call or by \<open>new Error(msg)\<close>: the two properties the
  code reads, \<open>message\<close> and \<open>status\<close>, either of which may be undefined.
\<close>

record ApiError =
  message :: "string option"
  status :: "int option"

text \<open>
  One call of \<open>ai.models.generateContent\<close> either resolves to a response, whose
  \<open>text\<close> may be undefined, or throws.
\<close>

datatype Response = Text "string option" | Throws ApiError

text \<open>
  The outcome of \<open>navigator.wakeLock.request\<close>: the capability is absent from
  \<open>navigator\<close>, the request throws, or a sentinel (identified by a number) is granted.
\<close>

datatype WakeLockRequest = Unavailable | RequestThrows | Granted nat

datatype WakeEvent = Acquired nat | Released nat

text \<open>
  The environment of a run: the backend's answer to the k-th call made so far, the value
  of \<open>Date.now()\<close> after k calls, the outcome of the wake-lock request and whether
  \<open>release()\<close> of a sentinel throws.
\<close>

record Env =
  backend :: "nat \<Rightarrow> Response"
  clock :: "nat \<Rightarrow> int"
  wakeLockRequest :: WakeLockRequest
  releaseThrows :: bool

text \<open>
  The state the code reads and writes: the React state \<open>projects\<close> and
  \<open>generatingProjectId\<close>, the ref \<open>wakeLockRef\<close>, and logs of the effects: the number
  of backend calls made, the durations in milliseconds of the \<open>setTimeout\<close> sleeps,
  the chapter numbers \<open>writeChapter\<close> was called with, the texts passed to
  \<open>alert\<close>, and the wake-lock events.
\<close>

record World =
  projects :: "BookProject list"
  generatingProjectId :: "string option"
  wakeLockRef :: "nat option"
  calls :: nat
  sleeps :: "nat list"
  invoked :: "int list"
  alerts :: "string list"
  wakeEvents :: "WakeEvent list"

section \<open>Strings\<close>

text \<open>\<open>s.includes(sub)\<close>: \<open>sub\<close> occurs in \<open>s\<close> as a contiguous substring.\<close>

fun starts_with :: "string \<Rightarrow> string \<Rightarrow> bool" where
  "starts_with s [] = True"
| "starts_with [] (c # sub) = False"
| "starts_with (d # s) (c # sub) = (d = c \<and> starts_with s sub)"

fun str_includes :: "string \<Rightarrow> string \<Rightarrow> bool" where
  "str_includes [] sub = starts_with [] sub"
| "str_includes (d # s) sub = (starts_with (d # s) sub \<or> str_includes s sub)"

text \<open>The decimal rendering of an integer in a template string.\<close>

fun show_nat :: "nat \<Rightarrow> string" where
  "show_nat n =
     (if n < 10 then [''0123456789'' ! n]
      else show_nat (n div 10) @ [''0123456789'' ! (n mod 10)])"

declare show_nat.simps [simp del]

definition show_int :: "int \<Rightarrow> string" where
  "show_int i = (if i < 0 then ''-'' @ show_nat (nat (- i)) else show_nat (nat i))"

section \<open>services/gemini.ts\<close>

text \<open>\<open>error?.message || ''\<close>\<close>

definition message_or_empty :: "ApiError \<Rightarrow> string" where
  "message_or_empty error = (case message error of None \<Rightarrow> [] | Some m \<Rightarrow> m)"

definition isFatalError :: "ApiError \<Rightarrow> bool" where
  "isFatalError error =
     (let msg = message_or_empty error; st = status error in
      if st = Some 403 \<or> st = Some 401 then True
      else if str_includes msg ''leaked'' \<or> str_includes msg ''API key''
              \<or> str_includes msg ''PERMISSION_DENIED'' then True
      else False)"

text \<open>\<open>new Error(msg)\<close>\<close>

definition new_Error :: "string \<Rightarrow> ApiError" where
  "new_Error msg = \<lparr>message = Some msg, status = None\<rparr>"

text \<open>\<open>response.text || ""\<close>\<close>

definition text_or_empty :: "string option \<Rightarrow> string" where
  "text_or_empty t = (case t of None \<Rightarrow> [] | Some s \<Rightarrow> s)"

definition maxAttempts :: nat where
  "maxAttempts = 3"

text \<open>\<open>setTimeout(resolve, ms)\<close>, awaited.\<close>

definition sleep :: "nat \<Rightarrow> World \<Rightarrow> World" where
  "sleep ms w = w\<lparr>sleeps := sleeps w @ [ms]\<rparr>"

text \<open>
  The retry loop of \<open>writeChapter\<close>, from the value \<open>attempt\<close> of its counter. The
  request (the prompt built from the chapter, the outline, the sources and the style) does
  not influence the control flow; the backend's answer is read from the environment at the
  index of the call. A thrown value is \<open>Inl\<close>, the returned text \<open>Inr\<close>.
\<close>

function writeChapter_loop ::
  "Env \<Rightarrow> ChapterOutline \<Rightarrow> nat \<Rightarrow> World \<Rightarrow> (ApiError + string) \<times> World" where
  "writeChapter_loop env chapter attempt w =
     (if attempt < maxAttempts then
        (case backend env (calls w) of
           Text t \<Rightarrow> (Inr (text_or_empty t), w\<lparr>calls := Suc (calls w)\<rparr>)
         | Throws error \<Rightarrow>
             if isFatalError error then (Inl error, w\<lparr>calls := Suc (calls w)\<rparr>)
             else if maxAttempts \<le> attempt + 1
             then (Inl (new_Error (''Failed to write chapter '' @ show_int (oc_chapterNumber chapter))),
                   w\<lparr>calls := Suc (calls w)\<rparr>)
             else writeChapter_loop env chapter (attempt + 1)
                    (sleep (1000 * 2 ^ (attempt + 1)) (w\<lparr>calls := Suc (calls w)\<rparr>)))
      else (Inr [], w))"
  by pat_completeness auto
termination
  by (relation "measure (\<lambda>(env, chapter, attempt, w). maxAttempts - attempt)") auto

declare writeChapter_loop.simps [simp del]

definition writeChapter ::
  "Env \<Rightarrow> ChapterOutline \<Rightarrow> BookOutline \<Rightarrow> Source list \<Rightarrow> WritingStyle \<Rightarrow> World
     \<Rightarrow> (ApiError + string) \<times> World" where
  "writeChapter env chapter ol srcs style w =
     writeChapter_loop env chapter 0 (w\<lparr>invoked := invoked w @ [oc_chapterNumber chapter]\<rparr>)"

section \<open>App.tsx: the background generator\<close>

definition requestWakeLock :: "Env \<Rightarrow> World \<Rightarrow> World" where
  "requestWakeLock env w =
     (case wakeLockRequest env of
        Unavailable \<Rightarrow> w
      | RequestThrows \<Rightarrow> w
      | Granted h \<Rightarrow> w\<lparr>wakeLockRef := Some h, wakeEvents := wakeEvents w @ [Acquired h]\<rparr>)"

text \<open>
  \<open>release()\<close> is called on the sentinel the ref holds; the ref is cleared only when the
  call does not throw.
\<close>

definition releaseWakeLock :: "Env \<Rightarrow> World \<Rightarrow> World" where
  "releaseWakeLock env w =
     (case wakeLockRef w of
        None \<Rightarrow> w
      | Some h \<Rightarrow>
          if releaseThrows env then w\<lparr>wakeEvents := wakeEvents w @ [Released h]\<rparr>
          else w\<lparr>wakeLockRef := None, wakeEvents := wakeEvents w @ [Released h]\<rparr>)"

text \<open>\<open>setProjects(prev => prev.map(p => p.id === updatedProject.id ? updatedProject : p))\<close>\<close>

definition updateProjects :: "BookProject \<Rightarrow> BookProject list \<Rightarrow> BookProject list" where
  "updateProjects updatedProject prev =
     map (\<lambda>p. if project_id p = project_id updatedProject then updatedProject else p) prev"

definition handleUpdateProject :: "BookProject \<Rightarrow> World \<Rightarrow> World" where
  "handleUpdateProject updatedProject w =
     w\<lparr>projects := updateProjects updatedProject (projects w)\<rparr>"

text \<open>The chapters a run starts from: the stored ones unless there are none.\<close>

definition newChapter :: "ChapterOutline \<Rightarrow> ChapterContent" where
  "newChapter c =
     \<lparr>chapterNumber = oc_chapterNumber c, ch_title = oc_title c, content = [],
      isGenerating = True\<rparr>"

definition initialChapters :: "BookProject \<Rightarrow> BookOutline \<Rightarrow> ChapterContent list" where
  "initialChapters project ol =
     (if length (chapters project) > 0 then chapters project
      else map newChapter (ol_chapters ol))"

text \<open>
  The skip check of the loop:
  \<open>existingChap && existingChap.content && !existingChap.isGenerating\<close>.
\<close>

definition findChapter :: "int \<Rightarrow> ChapterContent list \<Rightarrow> ChapterContent option" where
  "findChapter n cs = find (\<lambda>c. chapterNumber c = n) cs"

definition alreadyDone :: "ChapterContent option \<Rightarrow> bool" where
  "alreadyDone existingChap =
     (case existingChap of
        None \<Rightarrow> False
      | Some c \<Rightarrow> content c \<noteq> [] \<and> \<not> isGenerating c)"

text \<open>The two updates of a chapter list, keyed by chapter number.\<close>

definition setChapterContent :: "int \<Rightarrow> string \<Rightarrow> ChapterContent list \<Rightarrow> ChapterContent list" where
  "setChapterContent n text cs =
     map (\<lambda>c. if chapterNumber c = n then c\<lparr>content := text, isGenerating := False\<rparr> else c) cs"

definition failureText :: "bool \<Rightarrow> string" where
  "failureText fatal =
     (if fatal then ''Stopped due to API error.'' else ''Generation failed. Please retry.'')"

definition setChapterFailed :: "int \<Rightarrow> bool \<Rightarrow> ChapterContent list \<Rightarrow> ChapterContent list" where
  "setChapterFailed n fatal cs =
     map (\<lambda>c. if chapterNumber c = n then c\<lparr>isGenerating := False, content := failureText fatal\<rparr>
              else c) cs"

text \<open>
  The two functional updates of \<open>projects\<close>, as functions of the previous value
  \<open>prevProjects\<close>; \<open>now\<close> is \<open>Date.now()\<close>.
\<close>

definition persistSuccess ::
  "string \<Rightarrow> int \<Rightarrow> string \<Rightarrow> int \<Rightarrow> BookProject list \<Rightarrow> BookProject list" where
  "persistSuccess projectId n text now prevProjects =
     map (\<lambda>p. if project_id p \<noteq> projectId then p
              else p\<lparr>chapters := setChapterContent n text (chapters p), lastModified := now\<rparr>)
       prevProjects"

definition persistFailure ::
  "string \<Rightarrow> int \<Rightarrow> bool \<Rightarrow> BookProject list \<Rightarrow> BookProject list" where
  "persistFailure projectId n fatal prevProjects =
     map (\<lambda>p. if project_id p \<noteq> projectId then p
              else p\<lparr>chapters := setChapterFailed n fatal (chapters p)\<rparr>)
       prevProjects"

text \<open>
  The classification in the catch block:
  \<open>e.message?.includes('leaked') || e.message?.includes('PERMISSION_DENIED') || e.status === 403\<close>.
\<close>

definition isFatal :: "ApiError \<Rightarrow> bool" where
  "isFatal e =
     ((case message e of None \<Rightarrow> False | Some m \<Rightarrow> str_includes m ''leaked'')
      \<or> (case message e of None \<Rightarrow> False | Some m \<Rightarrow> str_includes m ''PERMISSION_DENIED'')
      \<or> status e = Some 403)"

definition alertText :: "ApiError \<Rightarrow> string" where
  "alertText e =
     ''Generation Stopped: '' @ (case message e of None \<Rightarrow> ''undefined'' | Some m \<Rightarrow> m)"

text \<open>
  The try/catch of one loop iteration, for a chapter that is neither skipped nor behind
  the break: the new values of \<open>currentChapters\<close>, \<open>hasFatalError\<close> and the world.
\<close>

definition processChapter ::
  "Env \<Rightarrow> string \<Rightarrow> BookProject \<Rightarrow> BookOutline \<Rightarrow> WritingStyle \<Rightarrow> ChapterOutline
     \<Rightarrow> ChapterContent list \<Rightarrow> bool \<Rightarrow> World \<Rightarrow> ChapterContent list \<times> bool \<times> World" where
  "processChapter env projectId project ol style chapOutline currentChapters hasFatalError w =
     (case writeChapter env chapOutline ol (sources project) style w of
        (Inr text, w1) \<Rightarrow>
          (setChapterContent (oc_chapterNumber chapOutline) text currentChapters,
           hasFatalError,
           w1\<lparr>projects := persistSuccess projectId (oc_chapterNumber chapOutline) text
                             (clock env (calls w1)) (projects w1)\<rparr>)
      | (Inl e, w1) \<Rightarrow>
          (currentChapters,
           hasFatalError \<or> isFatal e,
           (if isFatal e then w1\<lparr>alerts := alerts w1 @ [alertText e]\<rparr> else w1)
             \<lparr>projects := persistFailure projectId (oc_chapterNumber chapOutline) (isFatal e)
                            (projects w1)\<rparr>))"

fun generationLoop ::
  "Env \<Rightarrow> string \<Rightarrow> BookProject \<Rightarrow> BookOutline \<Rightarrow> WritingStyle \<Rightarrow> ChapterOutline list
     \<Rightarrow> ChapterContent list \<Rightarrow> bool \<Rightarrow> World \<Rightarrow> ChapterContent list \<times> bool \<times> World" where
  "generationLoop env projectId project ol style [] currentChapters hasFatalError w =
     (currentChapters, hasFatalError, w)"
| "generationLoop env projectId project ol style (chapOutline # rest) currentChapters hasFatalError w =
     (if alreadyDone (findChapter (oc_chapterNumber chapOutline) currentChapters)
      then generationLoop env projectId project ol style rest currentChapters hasFatalError w
      else if hasFatalError then (currentChapters, hasFatalError, w)
      else (case processChapter env projectId project ol style chapOutline currentChapters
                   hasFatalError w of
              (currentChapters', hasFatalError', w') \<Rightarrow>
                generationLoop env projectId project ol style rest currentChapters' hasFatalError' w'))"

text \<open>
  The run up to the loop: the slot \<open>generatingProjectId\<close> is set, the wake lock is
  requested, the chapters are initialised and the project is stored with them.
\<close>

definition runStart ::
  "Env \<Rightarrow> string \<Rightarrow> BookProject \<Rightarrow> BookOutline \<Rightarrow> World \<Rightarrow> ChapterContent list \<times> World" where
  "runStart env projectId project ol w =
     (let w1 = w\<lparr>generatingProjectId := Some projectId\<rparr>;
          w2 = requestWakeLock env w1;
          currentChapters = initialChapters project ol
      in (currentChapters, handleUpdateProject (project\<lparr>chapters := currentChapters\<rparr>) w2))"

text \<open>
  The run after the loop: the slot \<open>generatingProjectId\<close> is set to null and the wake
  lock is released.
\<close>

definition runEnd :: "Env \<Rightarrow> World \<Rightarrow> World" where
  "runEnd env w = releaseWakeLock env (w\<lparr>generatingProjectId := None\<rparr>)"

text \<open>
  \<open>startBookGeneration\<close> for a run during which no other run executes: its start, its
  loop and its end in sequence, with the final value of its local \<open>hasFatalError\<close>
  beside the final world; \<open>None\<close> is the early return (no such project, or no
  outline). The source suspends a run at every \<open>await\<close> (the wake-lock calls, each
  backend call, each sleep), where another run may execute on the same
  \<open>projects\<close>, \<open>generatingProjectId\<close> and \<open>wakeLockRef\<close>; an execution of
  overlapping runs is the sequence of their segments \<open>runStart\<close>,
  \<open>generationLoop\<close> and \<open>runEnd\<close> in the order of the schedule, as in
  \<open>overlappingRuns\<close> below. The source has no \<open>try/finally\<close> around the loop; with
  thrown values whose \<open>message\<close> is a string or undefined, every exception of
  \<open>writeChapter\<close> is caught inside the loop and the catch block does not throw, so
  the model has no exit by exception.
\<close>

definition startBookGeneration_run ::
  "Env \<Rightarrow> string \<Rightarrow> WritingStyle \<Rightarrow> World \<Rightarrow> (bool \<times> World) option" where
  "startBookGeneration_run env projectId style w =
     (case find (\<lambda>p. project_id p = projectId) (projects w) of
        None \<Rightarrow> None
      | Some project \<Rightarrow>
          (case outline project of
             None \<Rightarrow> None
           | Some ol \<Rightarrow>
               (case runStart env projectId project ol w of
                  (currentChapters, w3) \<Rightarrow>
                    (case generationLoop env projectId project ol style (ol_chapters ol)
                            currentChapters False w3 of
                       (currentChapters', hasFatalError, w4) \<Rightarrow>
                         Some (hasFatalError, runEnd env w4)))))"

text \<open>
  Two calls of \<open>startBookGeneration\<close> that overlap: the run for \<open>idA\<close> starts, the
  run for \<open>idB\<close> starts while the first is suspended, then the first run generates
  its chapters and ends, then the second. Each run reads its project from the value
  of \<open>projects\<close> at its own start. \<open>None\<close> when either call returns early.
\<close>

definition overlappingRuns ::
  "Env \<Rightarrow> string \<Rightarrow> Env \<Rightarrow> string \<Rightarrow> WritingStyle \<Rightarrow> World \<Rightarrow> World option" where
  "overlappingRuns envA idA envB idB style w =
     (case find (\<lambda>p. project_id p = idA) (projects w) of
        None \<Rightarrow> None
      | Some projectA \<Rightarrow>
          (case outline projectA of
             None \<Rightarrow> None
           | Some olA \<Rightarrow>
               (case runStart envA idA projectA olA w of
                  (chaptersA, w1) \<Rightarrow>
                    (case find (\<lambda>p. project_id p = idB) (projects w1) of
                       None \<Rightarrow> None
                     | Some projectB \<Rightarrow>
                         (case outline projectB of
                            None \<Rightarrow> None
                          | Some olB \<Rightarrow>
                              (case runStart envB idB projectB olB w1 of
                                 (chaptersB, w2) \<Rightarrow>
                                   (case generationLoop envA idA projectA olA style
                                           (ol_chapters olA) chaptersA False w2 of
                                      (chaptersA', fatalA, w3) \<Rightarrow>
                                        (case generationLoop envB idB projectB olB style
                                                (ol_chapters olB) chaptersB False
                                                (runEnd envA w3) of
                                           (chaptersB', fatalB, w4) \<Rightarrow>
                                             Some (runEnd envB w4)))))))))"

definition startBookGeneration :: "Env \<Rightarrow> string \<Rightarrow> WritingStyle \<Rightarrow> World \<Rightarrow> World" where
  "startBookGeneration env projectId style w =
     (case startBookGeneration_run env projectId style w of
        None \<Rightarrow> w
      | Some (hasFatalError, w') \<Rightarrow> w')"

section \<open>components/ProjectEditor.tsx: the auto-start effect\<close>

text \<open>\<open>generatingProjectId === activeProject.id\<close>, the prop \<open>isGeneratingGlobal\<close>.\<close>

definition isGeneratingGlobal :: "World \<Rightarrow> BookProject \<Rightarrow> bool" where
  "isGeneratingGlobal w activeProject = (generatingProjectId w = Some (project_id activeProject))"

text \<open>
  The condition under which the effect calls \<open>onStartGeneration\<close>; \<open>error\<close> is the
  editor's error text, falsy when null or empty.
\<close>

definition autoStartRequested :: "BookProject \<Rightarrow> bool \<Rightarrow> bool \<Rightarrow> string option \<Rightarrow> bool" where
  "autoStartRequested project isProcessing generatingGlobal error =
     (currentStep project = 2 \<and> outline project \<noteq> None \<and> length (chapters project) = 0
      \<and> \<not> isProcessing \<and> \<not> generatingGlobal \<and> (error = None \<or> error = Some []))"

section \<open>Observations and sample data used in the statements\<close>

text \<open>The chapter numbers \<open>writeChapter\<close> was called with between two worlds.\<close>

definition invokedSince :: "World \<Rightarrow> World \<Rightarrow> int list" where
  "invokedSince w w' = drop (length (invoked w)) (invoked w')"

text \<open>The entries of a stored project that carry chapter number \<open>n\<close>.\<close>

definition entriesOf :: "int \<Rightarrow> BookProject \<Rightarrow> ChapterContent list" where
  "entriesOf n p = filter (\<lambda>c. chapterNumber c = n) (chapters p)"

text \<open>A project without its chapters and its time stamp: all its other fields.\<close>

definition otherFields :: "BookProject \<Rightarrow> BookProject" where
  "otherFields p = p\<lparr>chapters := [], lastModified := 0\<rparr>"

text \<open>Sample data: an outline with the given chapter numbers, a project, a world.\<close>

definition sampleChapter :: "int \<Rightarrow> ChapterOutline" where
  "sampleChapter n = \<lparr>oc_chapterNumber = n, oc_title = ''Chapter'', summary = ''Summary''\<rparr>"

definition sampleOutline :: "int list \<Rightarrow> BookOutline" where
  "sampleOutline ns =
     \<lparr>ol_title = ''Book'', description = ''About'', ol_chapters = map sampleChapter ns,
      coverImage = None, backCoverImage = None\<rparr>"

definition sampleProject :: "int list \<Rightarrow> ChapterContent list \<Rightarrow> BookProject" where
  "sampleProject ns cs =
     \<lparr>project_id = ''p1'', title = ''Book'', lastModified = 0, sources = [],
      outline = Some (sampleOutline ns), chapters = cs, currentStep = 2, seriesId = None,
      seriesIndex = None, audioVoice = None\<rparr>"

definition sampleEntry :: "int \<Rightarrow> string \<Rightarrow> bool \<Rightarrow> ChapterContent" where
  "sampleEntry n text generating =
     \<lparr>chapterNumber = n, ch_title = ''Chapter'', content = text, isGenerating = generating\<rparr>"

definition sampleWorld :: "BookProject list \<Rightarrow> World" where
  "sampleWorld ps =
     \<lparr>projects = ps, generatingProjectId = None, wakeLockRef = None, calls = 0, sleeps = [],
      invoked = [], alerts = [], wakeEvents = []\<rparr>"

definition sampleEnv :: "(nat \<Rightarrow> Response) \<Rightarrow> Env" where
  "sampleEnv b =
     \<lparr>backend = b, clock = (\<lambda>k. 1000 + int k), wakeLockRequest = Granted 7,
      releaseThrows = False\<rparr>"

definition serviceOverloaded :: ApiError where
  "serviceOverloaded = \<lparr>message = Some ''503 overloaded'', status = Some 503\<rparr>"

definition unauthorized :: ApiError where
  "unauthorized = \<lparr>message = Some ''Unauthorized'', status = Some 401\<rparr>"

definition forbidden :: ApiError where
  "forbidden = \<lparr>message = Some ''Forbidden'', status = Some 403\<rparr>"

text \<open>
  Sample backends: one that always answers, one that always throws, one that throws on
  its first \<open>n\<close> calls and one that throws on call \<open>i\<close> only.
\<close>

definition alwaysAnswers :: "string option \<Rightarrow> nat \<Rightarrow> Response" where
  "alwaysAnswers t k = Text t"

definition alwaysThrows :: "ApiError \<Rightarrow> nat \<Rightarrow> Response" where
  "alwaysThrows e k = Throws e"

definition failingBefore :: "nat \<Rightarrow> ApiError \<Rightarrow> string \<Rightarrow> nat \<Rightarrow> Response" where
  "failingBefore n e text k = (if k < n then Throws e else Text (Some text))"

definition failingAt :: "nat \<Rightarrow> ApiError \<Rightarrow> string \<Rightarrow> nat \<Rightarrow> Response" where
  "failingAt i e text k = (if k = i then Throws e else Text (Some text))"

text \<open>The stored chapter texts and chapter numbers, project by project.\<close>

definition storedContents :: "World \<Rightarrow> string list list" where
  "storedContents w = map (\<lambda>p. map content (chapters p)) (projects w)"

definition storedNumbers :: "World \<Rightarrow> int list list" where
  "storedNumbers w = map (\<lambda>p. map chapterNumber (chapters p)) (projects w)"

text \<open>
  A project of four chapters of which two are written, one was left marked as being
  generated and one is pending.
\<close>

definition resumedProject :: BookProject where
  "resumedProject =
     sampleProject [1, 2, 3, 4]
       [sampleEntry 1 ''One'' False, sampleEntry 2 ''Two'' False, sampleEntry 3 [] True,
        sampleEntry 4 [] True]"


section \<open>Auxiliary facts\<close>

subsection \<open>Substrings and decimal digits\<close>

lemma starts_with_set: "starts_with s sub \<Longrightarrow> set sub \<subseteq> set s"
  by (induction s sub rule: starts_with.induct) auto

lemma str_includes_set: "str_includes s sub \<Longrightarrow> set sub \<subseteq> set s"
proof (induction s)
  case Nil
  then show ?case using starts_with_set[of "[]" sub] by simp
next
  case (Cons a s)
  from Cons.prems have "starts_with (a # s) sub \<or> str_includes s sub" by simp
  then show ?case
  proof
    assume "starts_with (a # s) sub"
    then show ?thesis by (rule starts_with_set)
  next
    assume "str_includes s sub"
    then have "set sub \<subseteq> set s" by (rule Cons.IH)
    then show ?thesis by auto
  qed
qed

lemma show_nat_digits: "set (show_nat n) \<subseteq> set ''0123456789''"
proof (induction n rule: show_nat.induct)
  case (1 n)
  show ?case
  proof (cases "n < 10")
    case True
    then have "''0123456789'' ! n \<in> set ''0123456789''"
      by (intro nth_mem) simp
    with True show ?thesis by (subst show_nat.simps) simp
  next
    case False
    have "n mod 10 < 10" by simp
    then have "''0123456789'' ! (n mod 10) \<in> set ''0123456789''"
      by (intro nth_mem) simp
    with False 1 show ?thesis by (subst show_nat.simps) simp
  qed
qed

lemma show_int_chars: "set (show_int i) \<subseteq> insert CHR ''-'' (set ''0123456789'')"
proof (cases "i < 0")
  case True
  then have "show_int i = CHR ''-'' # show_nat (nat (- i))"
    by (simp add: show_int_def)
  then have "set (show_int i) = insert CHR ''-'' (set (show_nat (nat (- i))))"
    by (simp only: list.set)
  with show_nat_digits[of "nat (- i)"] show ?thesis by blast
next
  case False
  then have "set (show_int i) = set (show_nat (nat i))" by (simp add: show_int_def)
  with show_nat_digits[of "nat i"] show ?thesis by blast
qed

lemma exhausted_message_no_char:
  assumes "c \<notin> set ''Failed to write chapter ''" and "c \<noteq> CHR ''-''"
      and "c \<notin> set ''0123456789''" and "c \<in> set sub"
  shows "\<not> str_includes (''Failed to write chapter '' @ show_int n) sub"
proof
  assume "str_includes (''Failed to write chapter '' @ show_int n) sub"
  from str_includes_set[OF this]
  have "set sub \<subseteq> set ''Failed to write chapter '' \<union> set (show_int n)"
    by (simp only: set_append)
  with show_int_chars[of n] assms show False by blast
qed

lemma leaked_not_in_exhausted:
  "\<not> str_includes (''Failed to write chapter '' @ show_int n) ''leaked''"
  by (rule exhausted_message_no_char[of "CHR ''k''"]) simp_all

lemma denied_not_in_exhausted:
  "\<not> str_includes (''Failed to write chapter '' @ show_int n) ''PERMISSION_DENIED''"
  by (rule exhausted_message_no_char[of "CHR ''P''"]) simp_all

lemma exhausted_not_isFatal:
  "\<not> isFatal (new_Error (''Failed to write chapter '' @ show_int n))"
  using leaked_not_in_exhausted[of n] denied_not_in_exhausted[of n]
  by (simp only: isFatal_def new_Error_def ApiError.simps option.case) simp

subsection \<open>The retry loop, unrolled\<close>

lemma writeChapter_loop_2:
  "writeChapter_loop env chapter (Suc (Suc 0)) w =
     (case backend env (calls w) of
        Text t \<Rightarrow> (Inr (text_or_empty t), w\<lparr>calls := Suc (calls w)\<rparr>)
      | Throws error \<Rightarrow>
          if isFatalError error then (Inl error, w\<lparr>calls := Suc (calls w)\<rparr>)
          else (Inl (new_Error (''Failed to write chapter '' @ show_int (oc_chapterNumber chapter))),
                w\<lparr>calls := Suc (calls w)\<rparr>))"
  by (subst writeChapter_loop.simps) (simp add: maxAttempts_def split: Response.splits)

lemma writeChapter_loop_1:
  "writeChapter_loop env chapter (Suc 0) w =
     (case backend env (calls w) of
        Text t \<Rightarrow> (Inr (text_or_empty t), w\<lparr>calls := Suc (calls w)\<rparr>)
      | Throws error \<Rightarrow>
          if isFatalError error then (Inl error, w\<lparr>calls := Suc (calls w)\<rparr>)
          else writeChapter_loop env chapter (Suc (Suc 0)) (sleep 4000 (w\<lparr>calls := Suc (calls w)\<rparr>)))"
  by (subst writeChapter_loop.simps) (simp add: maxAttempts_def split: Response.splits)

lemma writeChapter_loop_0:
  "writeChapter_loop env chapter 0 w =
     (case backend env (calls w) of
        Text t \<Rightarrow> (Inr (text_or_empty t), w\<lparr>calls := Suc (calls w)\<rparr>)
      | Throws error \<Rightarrow>
          if isFatalError error then (Inl error, w\<lparr>calls := Suc (calls w)\<rparr>)
          else writeChapter_loop env chapter (Suc 0) (sleep 2000 (w\<lparr>calls := Suc (calls w)\<rparr>)))"
  by (subst writeChapter_loop.simps) (simp add: maxAttempts_def split: Response.splits)

lemmas writeChapter_unrolled =
  writeChapter_def writeChapter_loop_0 writeChapter_loop_1 writeChapter_loop_2 sleep_def

text \<open>The retry loop touches only the call counter and the sleep log.\<close>

lemma writeChapter_frame:
  assumes "writeChapter env chapter ol srcs style w = (r, w')"
  shows "w' = w\<lparr>invoked := invoked w @ [oc_chapterNumber chapter], calls := calls w',
               sleeps := sleeps w'\<rparr>"
  using assms
  by (auto simp: writeChapter_unrolled split: Response.splits if_splits)

lemma writeChapter_thrown:
  assumes "writeChapter env chapter ol srcs style w = (Inl e, w')"
  shows "isFatalError e \<or> e = new_Error (''Failed to write chapter '' @ show_int (oc_chapterNumber chapter))"
  using assms
  by (auto simp: writeChapter_unrolled split: Response.splits if_splits)

lemma upt_1_2: "[Suc 0..<2] = [Suc 0]"
  by (simp add: upt_rec)

lemma upt_1_3: "[Suc 0..<3] = [Suc 0, 2]"
  by (simp add: upt_rec)

lemma not_fatal_overloaded: "\<not> isFatalError serviceOverloaded"
  by code_simp

subsection \<open>The functional updates of the stored projects\<close>

lemma entriesOf_setChapterContent:
  "m \<noteq> n \<Longrightarrow> filter (\<lambda>c. chapterNumber c = m) (setChapterContent n text cs)
                = filter (\<lambda>c. chapterNumber c = m) cs"
  by (induction cs) (auto simp: setChapterContent_def)

lemma entriesOf_setChapterFailed:
  "m \<noteq> n \<Longrightarrow> filter (\<lambda>c. chapterNumber c = m) (setChapterFailed n fatal cs)
                = filter (\<lambda>c. chapterNumber c = m) cs"
  by (induction cs) (auto simp: setChapterFailed_def)

lemma entriesOf_persistSuccess:
  "m \<noteq> n \<Longrightarrow> map (entriesOf m) (persistSuccess projectId n text now prev) = map (entriesOf m) prev"
  by (simp add: persistSuccess_def entriesOf_def entriesOf_setChapterContent)

lemma entriesOf_persistFailure:
  "m \<noteq> n \<Longrightarrow> map (entriesOf m) (persistFailure projectId n fatal prev) = map (entriesOf m) prev"
  by (simp add: persistFailure_def entriesOf_def entriesOf_setChapterFailed)

lemma otherFields_persistSuccess:
  "map otherFields (persistSuccess projectId n text now prev) = map otherFields prev"
  by (simp add: persistSuccess_def otherFields_def)

lemma otherFields_persistFailure:
  "map otherFields (persistFailure projectId n fatal prev) = map otherFields prev"
  by (simp add: persistFailure_def otherFields_def)

lemma persistSuccess_member:
  assumes "q \<in> set (persistSuccess projectId n text now prev)" and "project_id q = projectId"
  shows "\<exists>x \<in> set prev. project_id x = projectId
           \<and> q = x\<lparr>chapters := setChapterContent n text (chapters x), lastModified := now\<rparr>"
proof -
  from assms(1) obtain x where x: "x \<in> set prev"
    and q: "q = (if project_id x \<noteq> projectId then x
                 else x\<lparr>chapters := setChapterContent n text (chapters x), lastModified := now\<rparr>)"
    unfolding persistSuccess_def by (auto simp only: set_map image_iff)
  show ?thesis
  proof (cases "project_id x = projectId")
    case True
    with x q show ?thesis by (intro bexI[of _ x]) simp_all
  next
    case False
    with q assms(2) show ?thesis by simp
  qed
qed

lemma updateProjects_member:
  assumes "x \<in> set (updateProjects u prev)" and "project_id x = project_id u"
  shows "x = u"
proof -
  from assms(1) obtain y where "y \<in> set prev"
    and "x = (if project_id y = project_id u then u else y)"
    unfolding updateProjects_def by (auto simp only: set_map image_iff)
  with assms(2) show ?thesis by (cases "project_id y = project_id u") simp_all
qed

lemma setChapterContent_content:
  assumes "c \<in> set (setChapterContent n text cs)" and "chapterNumber c = n"
  shows "content c = text \<and> \<not> isGenerating c"
proof -
  from assms(1) obtain d where "d \<in> set cs"
    and "c = (if chapterNumber d = n then d\<lparr>content := text, isGenerating := False\<rparr> else d)"
    unfolding setChapterContent_def by (auto simp only: set_map image_iff)
  with assms(2) show ?thesis by (cases "chapterNumber d = n") simp_all
qed

subsection \<open>One iteration of the loop\<close>

lemma writeChapter_fields:
  assumes "writeChapter env chapter ol srcs style w = (r, w')"
  shows "invoked w' = invoked w @ [oc_chapterNumber chapter]"
    and "projects w' = projects w" and "alerts w' = alerts w"
    and "wakeEvents w' = wakeEvents w" and "wakeLockRef w' = wakeLockRef w"
    and "generatingProjectId w' = generatingProjectId w"
  by (subst writeChapter_frame[OF assms], simp)+

lemma processChapter_cases:
  assumes "processChapter env projectId project ol style c cur hf w = (cur', hf', w')"
  obtains (success) body w1 where
      "writeChapter env c ol (sources project) style w = (Inr body, w1)"
      "cur' = setChapterContent (oc_chapterNumber c) body cur" "hf' = hf"
      "w' = w1\<lparr>projects := persistSuccess projectId (oc_chapterNumber c) body
                              (clock env (calls w1)) (projects w1)\<rparr>"
    | (failure) e w1 where
      "writeChapter env c ol (sources project) style w = (Inl e, w1)"
      "cur' = cur" "hf' = (hf \<or> isFatal e)"
      "w' = (if isFatal e then w1\<lparr>alerts := alerts w1 @ [alertText e]\<rparr> else w1)
              \<lparr>projects := persistFailure projectId (oc_chapterNumber c) (isFatal e) (projects w1)\<rparr>"
proof (cases "writeChapter env c ol (sources project) style w")
  case (Pair r w1)
  show ?thesis
  proof (cases r)
    case (Inl e)
    with Pair assms show ?thesis
      by (intro failure[of e w1]) (simp_all add: processChapter_def)
  next
    case (Inr body)
    with Pair assms show ?thesis
      by (intro success[of body w1]) (simp_all add: processChapter_def)
  qed
qed

lemma processChapter_frame:
  assumes "processChapter env projectId project ol style c cur hf w = (cur', hf', w')"
  shows "invoked w' = invoked w @ [oc_chapterNumber c]"
    and "wakeEvents w' = wakeEvents w" and "wakeLockRef w' = wakeLockRef w"
    and "generatingProjectId w' = generatingProjectId w"
    and "hf \<Longrightarrow> hf'"
  using assms
  by (cases rule: processChapter_cases; simp add: writeChapter_fields)+

subsection \<open>The loop\<close>

lemma generationLoop_frame:
  assumes "generationLoop env projectId project ol style cs cur hf w = (cur', hf', w')"
  shows "wakeEvents w' = wakeEvents w \<and> wakeLockRef w' = wakeLockRef w
       \<and> generatingProjectId w' = generatingProjectId w \<and> (hf \<longrightarrow> hf')
       \<and> (\<exists>new. invoked w' = invoked w @ new)"
  using assms
proof (induction cs arbitrary: cur hf w)
  case Nil
  then show ?case by simp
next
  case (Cons c cs)
  show ?case
  proof (cases "alreadyDone (findChapter (oc_chapterNumber c) cur)")
    case True
    with Cons.prems have "generationLoop env projectId project ol style cs cur hf w = (cur', hf', w')"
      by simp
    then show ?thesis by (rule Cons.IH)
  next
    case notDone: False
    show ?thesis
    proof (cases hf)
      case True
      with notDone Cons.prems show ?thesis by simp
    next
      case False
      obtain cur1 hf1 w1 where step:
        "processChapter env projectId project ol style c cur hf w = (cur1, hf1, w1)"
        by (cases "processChapter env projectId project ol style c cur hf w")
      with notDone False Cons.prems
      have "generationLoop env projectId project ol style cs cur1 hf1 w1 = (cur', hf', w')"
        by simp
      from Cons.IH[OF this] processChapter_frame[OF step] False
      show ?thesis by auto
    qed
  qed
qed

lemma idEntries_persistSuccess:
  "m \<noteq> n \<Longrightarrow>
     map (\<lambda>p. (project_id p, entriesOf m p)) (persistSuccess projectId n body now prev)
       = map (\<lambda>p. (project_id p, entriesOf m p)) prev"
  by (simp add: persistSuccess_def entriesOf_def entriesOf_setChapterContent)

lemma idEntries_persistFailure:
  "m \<noteq> n \<Longrightarrow>
     map (\<lambda>p. (project_id p, entriesOf m p)) (persistFailure projectId n fatal prev)
       = map (\<lambda>p. (project_id p, entriesOf m p)) prev"
  by (simp add: persistFailure_def entriesOf_def entriesOf_setChapterFailed)

lemma findChapter_setChapterContent:
  "m \<noteq> n \<Longrightarrow> findChapter n (setChapterContent m body cs) = findChapter n cs"
  by (induction cs) (simp_all add: findChapter_def setChapterContent_def)

text \<open>
  A chapter number whose first entry passes the skip check is not generated, and its
  entries, in the loop's list and in every stored project, stay as they are.
\<close>

lemma generationLoop_done_untouched:
  assumes "generationLoop env projectId project ol style cs cur hf w = (cur', hf', w')"
      and "alreadyDone (findChapter n cur)"
  shows "findChapter n cur' = findChapter n cur
       \<and> map (\<lambda>p. (project_id p, entriesOf n p)) (projects w')
           = map (\<lambda>p. (project_id p, entriesOf n p)) (projects w)
       \<and> (\<exists>new. invoked w' = invoked w @ new \<and> n \<notin> set new)"
  using assms
proof (induction cs arbitrary: cur hf w)
  case Nil
  then show ?case by simp
next
  case (Cons c cs)
  show ?case
  proof (cases "alreadyDone (findChapter (oc_chapterNumber c) cur)")
    case True
    with Cons.prems have "generationLoop env projectId project ol style cs cur hf w = (cur', hf', w')"
      by simp
    from Cons.IH[OF this Cons.prems(2)] show ?thesis .
  next
    case notDone: False
    with Cons.prems(2) have neq: "n \<noteq> oc_chapterNumber c" by auto
    show ?thesis
    proof (cases hf)
      case True
      with notDone Cons.prems show ?thesis by simp
    next
      case False
      obtain cur1 hf1 w1 where step:
        "processChapter env projectId project ol style c cur hf w = (cur1, hf1, w1)"
        by (cases "processChapter env projectId project ol style c cur hf w")
      with notDone False Cons.prems
      have rest: "generationLoop env projectId project ol style cs cur1 hf1 w1 = (cur', hf', w')"
        by simp
      from step have keep: "findChapter n cur1 = findChapter n cur
          \<and> map (\<lambda>p. (project_id p, entriesOf n p)) (projects w1)
              = map (\<lambda>p. (project_id p, entriesOf n p)) (projects w)"
        using neq
        by (cases rule: processChapter_cases)
           (simp_all add: findChapter_setChapterContent idEntries_persistSuccess
              idEntries_persistFailure writeChapter_fields)
      with Cons.prems(2) have "alreadyDone (findChapter n cur1)" by simp
      from Cons.IH[OF rest this] keep processChapter_frame(1)[OF step] neq
      show ?thesis by auto
    qed
  qed
qed

text \<open>
  In a run that ends with \<open>hasFatalError\<close> false, every outline chapter whose first
  entry does not pass the skip check is generated.
\<close>

lemma generationLoop_pending_invoked:
  assumes "generationLoop env projectId project ol style cs cur hf w = (cur', hf', w')"
      and "\<not> hf'" and "c \<in> set cs" and "oc_chapterNumber c = n"
      and "\<not> alreadyDone (findChapter n cur)"
  shows "\<exists>new. invoked w' = invoked w @ new \<and> n \<in> set new"
  using assms
proof (induction cs arbitrary: cur hf w)
  case Nil
  then show ?case by simp
next
  case (Cons d cs)
  show ?case
  proof (cases "alreadyDone (findChapter (oc_chapterNumber d) cur)")
    case True
    with Cons.prems have rest: "generationLoop env projectId project ol style cs cur hf w = (cur', hf', w')"
      by simp
    from True Cons.prems(4,5) have "c \<noteq> d" by auto
    with Cons.prems(3) have "c \<in> set cs" by simp
    from Cons.IH[OF rest Cons.prems(2) this Cons.prems(4,5)] show ?thesis .
  next
    case notDone: False
    show ?thesis
    proof (cases hf)
      case True
      with notDone Cons.prems show ?thesis by simp
    next
      case False
      obtain cur1 hf1 w1 where step:
        "processChapter env projectId project ol style d cur hf w = (cur1, hf1, w1)"
        by (cases "processChapter env projectId project ol style d cur hf w")
      with notDone False Cons.prems
      have rest: "generationLoop env projectId project ol style cs cur1 hf1 w1 = (cur', hf', w')"
        by simp
      from generationLoop_frame[OF rest] obtain new where
        new: "invoked w' = invoked w1 @ new" by blast
      show ?thesis
      proof (cases "oc_chapterNumber d = n")
        case True
        with new processChapter_frame(1)[OF step]
        have "invoked w' = invoked w @ (n # new)" by simp
        then show ?thesis by (intro exI[of _ "n # new"]) simp
      next
        case other: False
        with Cons.prems(3,4) have "c \<in> set cs" by auto
        from step have "findChapter n cur1 = findChapter n cur"
          using other
          by (cases rule: processChapter_cases) (simp_all add: findChapter_setChapterContent)
        with Cons.prems(5) have "\<not> alreadyDone (findChapter n cur1)" by simp
        from Cons.IH[OF rest Cons.prems(2) \<open>c \<in> set cs\<close> Cons.prems(4) this]
        obtain new' where "invoked w' = invoked w1 @ new'" "n \<in> set new'" by blast
        with processChapter_frame(1)[OF step]
        have "invoked w' = invoked w @ (oc_chapterNumber d # new')" by simp
        with \<open>n \<in> set new'\<close> show ?thesis
          by (intro exI[of _ "oc_chapterNumber d # new'"]) simp
      qed
    qed
  qed
qed

subsection \<open>A whole run\<close>

lemma find_project_id:
  "find (\<lambda>p. project_id p = projectId) ps = Some project \<Longrightarrow>
     project_id project = projectId \<and> project \<in> set ps"
  by (induction ps) (auto split: if_splits)

lemma findChapter_nonempty: "findChapter n cs = Some e \<Longrightarrow> cs \<noteq> []"
  by (auto simp: findChapter_def)

lemma releaseWakeLock_fields:
  "invoked (releaseWakeLock env w) = invoked w"
  "projects (releaseWakeLock env w) = projects w"
  "alerts (releaseWakeLock env w) = alerts w"
  "calls (releaseWakeLock env w) = calls w"
  "sleeps (releaseWakeLock env w) = sleeps w"
  by (simp_all add: releaseWakeLock_def split: option.splits)

lemma requestWakeLock_fields:
  "invoked (requestWakeLock env w) = invoked w"
  "projects (requestWakeLock env w) = projects w"
  "alerts (requestWakeLock env w) = alerts w"
  "calls (requestWakeLock env w) = calls w"
  "sleeps (requestWakeLock env w) = sleeps w"
  by (simp_all add: requestWakeLock_def split: WakeLockRequest.splits)

text \<open>A run, taken apart into its start, its loop and its end.\<close>

lemma startBookGeneration_run_parts:
  assumes "find (\<lambda>p. project_id p = projectId) (projects w) = Some project"
      and "outline project = Some ol"
  obtains cur' hf w4 where
    "generationLoop env projectId project ol style (ol_chapters ol)
       (initialChapters project ol) False
       (handleUpdateProject (project\<lparr>chapters := initialChapters project ol\<rparr>)
          (requestWakeLock env (w\<lparr>generatingProjectId := Some projectId\<rparr>))) = (cur', hf, w4)"
    "startBookGeneration_run env projectId style w
       = Some (hf, releaseWakeLock env (w4\<lparr>generatingProjectId := None\<rparr>))"
proof -
  obtain cur' hf w4 where loop:
    "generationLoop env projectId project ol style (ol_chapters ol)
       (initialChapters project ol) False
       (handleUpdateProject (project\<lparr>chapters := initialChapters project ol\<rparr>)
          (requestWakeLock env (w\<lparr>generatingProjectId := Some projectId\<rparr>))) = (cur', hf, w4)"
    by (cases "generationLoop env projectId project ol style (ol_chapters ol)
       (initialChapters project ol) False
       (handleUpdateProject (project\<lparr>chapters := initialChapters project ol\<rparr>)
          (requestWakeLock env (w\<lparr>generatingProjectId := Some projectId\<rparr>)))")
  with assms have "startBookGeneration_run env projectId style w
       = Some (hf, releaseWakeLock env (w4\<lparr>generatingProjectId := None\<rparr>))"
    by (simp add: startBookGeneration_run_def runStart_def runEnd_def Let_def)
  with loop show ?thesis by (rule that)
qed

subsection \<open>Failure and success of one chapter\<close>





lemma processChapter_answered:
  assumes "backend env (calls w) = Text t"
  shows "processChapter env projectId project ol style c cur hf w =
           (setChapterContent (oc_chapterNumber c) (text_or_empty t) cur, hf,
            w\<lparr>projects := persistSuccess projectId (oc_chapterNumber c) (text_or_empty t)
                            (clock env (calls w + 1)) (projects w),
              calls := calls w + 1, invoked := invoked w @ [oc_chapterNumber c]\<rparr>)"
  using assms by (simp add: processChapter_def writeChapter_unrolled)

subsection \<open>The fatal path\<close>

text \<open>
  What the catch block classifies as fatal, \<open>isFatalError\<close> does too; the converse
  fails for status 401 and for the message fragment \<open>API key\<close>.
\<close>

lemma isFatal_imp_isFatalError: "isFatal e \<Longrightarrow> isFatalError e"
  by (cases "message e") (auto simp: isFatal_def isFatalError_def message_or_empty_def)

lemma generationLoop_after_fatal:
  "generationLoop env projectId project ol style cs cur True w = (cur, True, w)"
  by (induction cs) simp_all

text \<open>
  An error that both classifiers call fatal ends the run at once: one backend call, no
  sleep, one alert, the chapter stored with the text of an API error, and no later
  chapter generated.
\<close>

lemma fatal_error_stops_run:
  assumes "\<not> alreadyDone (findChapter (oc_chapterNumber c) cur)"
      and "backend env (calls w) = Throws e" and "isFatal e"
  shows "generationLoop env projectId project ol style (c # rest) cur False w =
           (cur, True,
            w\<lparr>projects := persistFailure projectId (oc_chapterNumber c) True (projects w),
              calls := calls w + 1, invoked := invoked w @ [oc_chapterNumber c],
              alerts := alerts w @ [alertText e]\<rparr>)"
proof -
  from assms(3) have "isFatalError e" by (rule isFatal_imp_isFatalError)
  with assms(2) have "writeChapter env c ol (sources project) style w =
      (Inl e, w\<lparr>calls := calls w + 1, invoked := invoked w @ [oc_chapterNumber c]\<rparr>)"
    by (simp add: writeChapter_unrolled)
  with assms(3) have "processChapter env projectId project ol style c cur False w =
           (cur, True,
            w\<lparr>projects := persistFailure projectId (oc_chapterNumber c) True (projects w),
              calls := calls w + 1, invoked := invoked w @ [oc_chapterNumber c],
              alerts := alerts w @ [alertText e]\<rparr>)"
    by (auto simp: processChapter_def intro!: World.equality)
  with assms(1) show ?thesis
    by (simp add: generationLoop_after_fatal)
qed

subsection \<open>Start and end of a run\<close>

lemma runEnd_fields:
  "invoked (runEnd env w) = invoked w"
  "projects (runEnd env w) = projects w"
  "alerts (runEnd env w) = alerts w"
  "calls (runEnd env w) = calls w"
  "sleeps (runEnd env w) = sleeps w"
  "generatingProjectId (runEnd env w) = None"
  by (simp_all add: runEnd_def releaseWakeLock_def split: option.splits)

lemma runStart_fields:
  assumes "runStart env projectId project ol w = (cur, w')"
  shows "cur = initialChapters project ol"
    and "invoked w' = invoked w" and "alerts w' = alerts w"
    and "calls w' = calls w" and "sleeps w' = sleeps w"
    and "generatingProjectId w' = Some projectId"
    and "projects w' = updateProjects (project\<lparr>chapters := cur\<rparr>) (projects w)"
  using assms
  by (auto simp: runStart_def Let_def handleUpdateProject_def requestWakeLock_def
        split: WakeLockRequest.splits)

subsection \<open>What a run passes to alert\<close>

lemma writeChapter_thrown_source:
  assumes "writeChapter env chapter ol srcs style w = (Inl e, w')"
  shows "e = new_Error (''Failed to write chapter '' @ show_int (oc_chapterNumber chapter))
         \<or> (\<exists>k. backend env k = Throws e)"
  using assms
  by (auto simp: writeChapter_unrolled split: Response.splits if_splits)

lemma processChapter_alerts:
  assumes "processChapter env projectId project ol style c cur hf w = (cur', hf', w')"
  shows "(alerts w' = alerts w \<and> hf' = hf)
         \<or> (hf' \<and> (\<exists>k e. backend env k = Throws e \<and> isFatal e
                        \<and> alerts w' = alerts w @ [alertText e]))"
  using assms
proof (cases rule: processChapter_cases)
  case (success body w1)
  then show ?thesis by (simp add: writeChapter_fields)
next
  case (failure e w1)
  show ?thesis
  proof (cases "isFatal e")
    case True
    with writeChapter_thrown_source[OF failure(1)] exhausted_not_isFatal[of "oc_chapterNumber c"]
    obtain k where "backend env k = Throws e" by auto
    with True failure show ?thesis
      by (auto simp: writeChapter_fields)
  next
    case False
    with failure show ?thesis by (simp add: writeChapter_fields)
  qed
qed

lemma generationLoop_alerts:
  assumes "generationLoop env projectId project ol style cs cur hf w = (cur', hf', w')"
  shows "alerts w' = alerts w
         \<or> (\<exists>k e. backend env k = Throws e \<and> isFatal e \<and> alerts w' = alerts w @ [alertText e])"
  using assms
proof (induction cs arbitrary: cur hf w)
  case Nil
  then show ?case by simp
next
  case (Cons c cs)
  show ?case
  proof (cases "alreadyDone (findChapter (oc_chapterNumber c) cur)")
    case True
    with Cons.prems have "generationLoop env projectId project ol style cs cur hf w = (cur', hf', w')"
      by simp
    then show ?thesis by (rule Cons.IH)
  next
    case notDone: False
    show ?thesis
    proof (cases hf)
      case True
      with notDone Cons.prems show ?thesis by simp
    next
      case False
      obtain cur1 hf1 w1 where step:
        "processChapter env projectId project ol style c cur hf w = (cur1, hf1, w1)"
        by (cases "processChapter env projectId project ol style c cur hf w")
      with notDone False Cons.prems
      have rest: "generationLoop env projectId project ol style cs cur1 hf1 w1 = (cur', hf', w')"
        by simp
      from processChapter_alerts[OF step] show ?thesis
      proof
        assume "alerts w1 = alerts w \<and> hf1 = hf"
        with Cons.IH[OF rest] show ?thesis by simp
      next
        assume fatal: "hf1 \<and> (\<exists>k e. backend env k = Throws e \<and> isFatal e
                        \<and> alerts w1 = alerts w @ [alertText e])"
        with rest have "w' = w1" by (simp add: generationLoop_after_fatal)
        with fatal show ?thesis by simp
      qed
    qed
  qed
qed

lemma run_alerts:
  assumes "startBookGeneration_run env projectId style w = Some (hf, w')"
  shows "alerts w' = alerts w
         \<or> (\<exists>k e. backend env k = Throws e \<and> isFatal e \<and> alerts w' = alerts w @ [alertText e])"
proof -
  from assms obtain project ol where
    f: "find (\<lambda>p. project_id p = projectId) (projects w) = Some project"
    and o: "outline project = Some ol"
    by (auto simp: startBookGeneration_run_def split: option.splits)
  let ?w3 = "handleUpdateProject (project\<lparr>chapters := initialChapters project ol\<rparr>)
          (requestWakeLock env (w\<lparr>generatingProjectId := Some projectId\<rparr>))"
  from f o obtain cur' hf4 w4 where
    loop: "generationLoop env projectId project ol style (ol_chapters ol)
       (initialChapters project ol) False ?w3 = (cur', hf4, w4)"
    and run: "startBookGeneration_run env projectId style w
       = Some (hf4, releaseWakeLock env (w4\<lparr>generatingProjectId := None\<rparr>))"
    by (rule startBookGeneration_run_parts)
  from run assms have "alerts w' = alerts w4"
    by (auto simp: releaseWakeLock_fields)
  moreover have "alerts ?w3 = alerts w"
    by (simp add: handleUpdateProject_def requestWakeLock_fields)
  ultimately show ?thesis using generationLoop_alerts[OF loop] by simp
qed

lemma runStart_overwrites_slot:
  "runStart env projectId project ol (w\<lparr>generatingProjectId := g\<rparr>)
     = runStart env projectId project ol w"
  by (cases "wakeLockRequest env")
     (simp_all add: runStart_def Let_def requestWakeLock_def handleUpdateProject_def)

subsection \<open>The two writes, field by field\<close>

lemma numbers_setChapterContent:
  "map chapterNumber (setChapterContent n body cs) = map chapterNumber cs"
  by (induction cs) (simp_all add: setChapterContent_def)

lemma titles_setChapterContent:
  "map ch_title (setChapterContent n body cs) = map ch_title cs"
  by (induction cs) (simp_all add: setChapterContent_def)

lemma contents_setChapterContent:
  "map content (setChapterContent n body cs)
     = map (\<lambda>c. if chapterNumber c = n then body else content c) cs"
  by (induction cs) (simp_all add: setChapterContent_def)

lemma flags_setChapterContent:
  "map isGenerating (setChapterContent n body cs)
     = map (\<lambda>c. if chapterNumber c = n then False else isGenerating c) cs"
  by (induction cs) (simp_all add: setChapterContent_def)

lemma numbers_setChapterFailed:
  "map chapterNumber (setChapterFailed n fatal cs) = map chapterNumber cs"
  by (induction cs) (simp_all add: setChapterFailed_def)

lemma titles_setChapterFailed:
  "map ch_title (setChapterFailed n fatal cs) = map ch_title cs"
  by (induction cs) (simp_all add: setChapterFailed_def)

lemma contents_setChapterFailed:
  "map content (setChapterFailed n fatal cs)
     = map (\<lambda>c. if chapterNumber c = n then failureText fatal else content c) cs"
  by (induction cs) (simp_all add: setChapterFailed_def)

lemma flags_setChapterFailed:
  "map isGenerating (setChapterFailed n fatal cs)
     = map (\<lambda>c. if chapterNumber c = n then False else isGenerating c) cs"
  by (induction cs) (simp_all add: setChapterFailed_def)

lemma persistSuccess_chapters:
  "map (\<lambda>p. map chapterNumber (chapters p)) (persistSuccess projectId n body now prev)
     = map (\<lambda>p. map chapterNumber (chapters p)) prev"
  "map (\<lambda>p. map ch_title (chapters p)) (persistSuccess projectId n body now prev)
     = map (\<lambda>p. map ch_title (chapters p)) prev"
  "map (\<lambda>p. map content (chapters p)) (persistSuccess projectId n body now prev)
     = map (\<lambda>p. map (\<lambda>c. if project_id p = projectId \<and> chapterNumber c = n then body
                          else content c) (chapters p)) prev"
  "map (\<lambda>p. map isGenerating (chapters p)) (persistSuccess projectId n body now prev)
     = map (\<lambda>p. map (\<lambda>c. if project_id p = projectId \<and> chapterNumber c = n then False
                          else isGenerating c) (chapters p)) prev"
  by (induction prev)
     (simp_all add: persistSuccess_def numbers_setChapterContent titles_setChapterContent
        contents_setChapterContent flags_setChapterContent)

lemma persistFailure_chapters:
  "map (\<lambda>p. map chapterNumber (chapters p)) (persistFailure projectId n fatal prev)
     = map (\<lambda>p. map chapterNumber (chapters p)) prev"
  "map (\<lambda>p. map ch_title (chapters p)) (persistFailure projectId n fatal prev)
     = map (\<lambda>p. map ch_title (chapters p)) prev"
  "map (\<lambda>p. map content (chapters p)) (persistFailure projectId n fatal prev)
     = map (\<lambda>p. map (\<lambda>c. if project_id p = projectId \<and> chapterNumber c = n
                          then failureText fatal else content c) (chapters p)) prev"
  "map (\<lambda>p. map isGenerating (chapters p)) (persistFailure projectId n fatal prev)
     = map (\<lambda>p. map (\<lambda>c. if project_id p = projectId \<and> chapterNumber c = n then False
                          else isGenerating c) (chapters p)) prev"
  by (induction prev)
     (simp_all add: persistFailure_def numbers_setChapterFailed titles_setChapterFailed
        contents_setChapterFailed flags_setChapterFailed)

lemma persistSuccess_lastModified:
  "map lastModified (persistSuccess projectId n body now prev)
     = map (\<lambda>p. if project_id p = projectId then now else lastModified p) prev"
  by (induction prev) (simp_all add: persistSuccess_def)

lemma persistSuccess_other_projects:
  "filter (\<lambda>p. project_id p \<noteq> projectId) (persistSuccess projectId n body now prev)
     = filter (\<lambda>p. project_id p \<noteq> projectId) prev"
  by (induction prev) (simp_all add: persistSuccess_def)

lemma persistFailure_other_projects:
  "filter (\<lambda>p. project_id p \<noteq> projectId) (persistFailure projectId n fatal prev)
     = filter (\<lambda>p. project_id p \<noteq> projectId) prev"
  by (induction prev) (simp_all add: persistFailure_def)

lemma title_after_update_and_write:
  "map title (persistSuccess projectId n body now (updateProjects (p\<lparr>title := t\<rparr>) prev))
     = map (\<lambda>q. if project_id q = project_id p then t else title q) prev"
  by (induction prev) (simp_all add: persistSuccess_def updateProjects_def)

subsection \<open>Chapters that a run generates\<close>

lemma run_pending_invoked:
  assumes "find (\<lambda>p. project_id p = projectId) (projects w) = Some project"
      and "outline project = Some ol"
      and "startBookGeneration_run env projectId style w = Some (hf, w')"
      and "\<not> hf" and "c \<in> set (ol_chapters ol)" and "oc_chapterNumber c = n"
      and "\<not> alreadyDone (findChapter n (initialChapters project ol))"
  shows "n \<in> set (invokedSince w w')"
proof -
  let ?w3 = "handleUpdateProject (project\<lparr>chapters := initialChapters project ol\<rparr>)
          (requestWakeLock env (w\<lparr>generatingProjectId := Some projectId\<rparr>))"
  from assms(1,2) obtain cur' hf4 w4 where
    loop: "generationLoop env projectId project ol style (ol_chapters ol)
       (initialChapters project ol) False ?w3 = (cur', hf4, w4)"
    and run: "startBookGeneration_run env projectId style w
       = Some (hf4, releaseWakeLock env (w4\<lparr>generatingProjectId := None\<rparr>))"
    by (rule startBookGeneration_run_parts)
  from run assms(3) have hf: "hf4 = hf"
    and w': "w' = releaseWakeLock env (w4\<lparr>generatingProjectId := None\<rparr>)" by simp_all
  have inv3: "invoked ?w3 = invoked w"
    by (simp add: handleUpdateProject_def requestWakeLock_fields)
  have inv': "invoked w' = invoked w4"
    by (simp add: w' releaseWakeLock_fields)
  from assms(4) hf have "\<not> hf4" by simp
  from generationLoop_pending_invoked[OF loop this assms(5,6,7)] inv3
  obtain new where "invoked w4 = invoked w @ new" "n \<in> set new" by auto
  with inv' show ?thesis by (simp add: invokedSince_def)
qed

subsection \<open>Retries follow thrown errors only\<close>

lemma writeChapter_retries:
  assumes "writeChapter env chapter ol srcs style w = (r, w')"
  shows "(\<forall>j. calls w \<le> j \<and> Suc j < calls w' \<longrightarrow>
            (\<exists>e. backend env j = Throws e \<and> \<not> isFatalError e))
       \<and> length (sleeps w') = length (sleeps w) + (calls w' - calls w - 1)"
proof -
  have first: "Suc (calls w) < calls w' \<longrightarrow>
                 (\<exists>e. backend env (calls w) = Throws e \<and> \<not> isFatalError e)"
    using assms
    by (auto simp: writeChapter_unrolled split: Response.splits if_splits)
  have second: "Suc (Suc (calls w)) < calls w' \<longrightarrow>
                 (\<exists>e. backend env (Suc (calls w)) = Throws e \<and> \<not> isFatalError e)"
    using assms
    by (auto simp: writeChapter_unrolled split: Response.splits if_splits)
  have bound: "calls w' \<le> calls w + 3"
    using assms
    by (auto simp: writeChapter_unrolled split: Response.splits if_splits)
  have count: "length (sleeps w') = length (sleeps w) + (calls w' - calls w - 1)"
    using assms
    by (auto simp: writeChapter_unrolled split: Response.splits if_splits)
  have "\<exists>e. backend env j = Throws e \<and> \<not> isFatalError e"
    if "calls w \<le> j \<and> Suc j < calls w'" for j
  proof -
    from that bound have "j = calls w \<or> j = Suc (calls w)" by arith
    then show ?thesis
    proof
      assume "j = calls w"
      with that first show ?thesis by simp
    next
      assume "j = Suc (calls w)"
      with that second show ?thesis by simp
    qed
  qed
  with count show ?thesis by blast
qed

section \<open>The claims\<close>

text \<open>
  Claim C5. A call of \<open>writeChapter\<close> makes between one and three backend calls; before
  each retry it sleeps 1000 * 2^i milliseconds, i being the number of failed attempts so
  far, counted from 1. Two transient failures followed by an answer give exactly the two
  sleeps 2000 and 4000 and the answered text; three transient failures give an error
  whose message carries the chapter number, after the same two sleeps.
\<close>

theorem C5_retry_policy:
  assumes "writeChapter env chapter ol srcs style w = (r, w')"
  shows "(\<exists>k. 1 \<le> k \<and> k \<le> 3 \<and> calls w' = calls w + k
              \<and> sleeps w' = sleeps w @ map (\<lambda>i. 1000 * 2 ^ i) [1..<k])
       \<and> (\<forall>e1 e2 t. backend env (calls w) = Throws e1 \<and> \<not> isFatalError e1
              \<and> backend env (calls w + 1) = Throws e2 \<and> \<not> isFatalError e2
              \<and> backend env (calls w + 2) = Text t
            \<longrightarrow> r = Inr (text_or_empty t) \<and> calls w' = calls w + 3
                \<and> sleeps w' = sleeps w @ [2000, 4000])
       \<and> (\<forall>e1 e2 e3. backend env (calls w) = Throws e1 \<and> \<not> isFatalError e1
              \<and> backend env (calls w + 1) = Throws e2 \<and> \<not> isFatalError e2
              \<and> backend env (calls w + 2) = Throws e3 \<and> \<not> isFatalError e3
            \<longrightarrow> r = Inl (new_Error (''Failed to write chapter '' @ show_int (oc_chapterNumber chapter)))
                \<and> calls w' = calls w + 3 \<and> sleeps w' = sleeps w @ [2000, 4000])"
proof (intro conjI allI impI)
  show "\<exists>k. 1 \<le> k \<and> k \<le> 3 \<and> calls w' = calls w + k
              \<and> sleeps w' = sleeps w @ map (\<lambda>i. 1000 * 2 ^ i) [1..<k]"
  proof (cases "backend env (calls w)")
    case (Text t)
    with assms have "calls w' = calls w + 1" "sleeps w' = sleeps w"
      by (auto simp: writeChapter_unrolled)
    then show ?thesis by (intro exI[of _ 1]) simp
  next
    case T1: (Throws e1)
    show ?thesis
    proof (cases "isFatalError e1")
      case True
      with T1 assms have "calls w' = calls w + 1" "sleeps w' = sleeps w"
        by (auto simp: writeChapter_unrolled)
      then show ?thesis by (intro exI[of _ 1]) simp
    next
      case F1: False
      show ?thesis
      proof (cases "backend env (Suc (calls w))")
        case (Text t)
        with T1 F1 assms have "calls w' = calls w + 2" "sleeps w' = sleeps w @ [2000]"
          by (auto simp: writeChapter_unrolled)
        then show ?thesis by (intro exI[of _ 2]) (simp add: upt_1_2)
      next
        case T2: (Throws e2)
        show ?thesis
        proof (cases "isFatalError e2")
          case True
          with T1 F1 T2 assms have "calls w' = calls w + 2" "sleeps w' = sleeps w @ [2000]"
            by (auto simp: writeChapter_unrolled)
          then show ?thesis by (intro exI[of _ 2]) (simp add: upt_1_2)
        next
          case F2: False
          with T1 F1 T2 assms have "calls w' = calls w + 3" "sleeps w' = sleeps w @ [2000, 4000]"
            by (auto simp: writeChapter_unrolled split: Response.splits if_splits)
          then show ?thesis by (intro exI[of _ 3]) (simp add: upt_1_3)
        qed
      qed
    qed
  qed
next
  fix e1 e2 t
  assume h: "backend env (calls w) = Throws e1 \<and> \<not> isFatalError e1
              \<and> backend env (calls w + 1) = Throws e2 \<and> \<not> isFatalError e2
              \<and> backend env (calls w + 2) = Text t"
  have "writeChapter env chapter ol srcs style w =
          (Inr (text_or_empty t),
           w\<lparr>invoked := invoked w @ [oc_chapterNumber chapter], calls := calls w + 3,
             sleeps := sleeps w @ [2000, 4000]\<rparr>)"
    using h by (simp add: writeChapter_unrolled)
  with assms show "r = Inr (text_or_empty t)" "calls w' = calls w + 3"
    "sleeps w' = sleeps w @ [2000, 4000]" by auto
next
  fix e1 e2 e3
  assume h: "backend env (calls w) = Throws e1 \<and> \<not> isFatalError e1
              \<and> backend env (calls w + 1) = Throws e2 \<and> \<not> isFatalError e2
              \<and> backend env (calls w + 2) = Throws e3 \<and> \<not> isFatalError e3"
  have "writeChapter env chapter ol srcs style w =
          (Inl (new_Error (''Failed to write chapter '' @ show_int (oc_chapterNumber chapter))),
           w\<lparr>invoked := invoked w @ [oc_chapterNumber chapter], calls := calls w + 3,
             sleeps := sleeps w @ [2000, 4000]\<rparr>)"
    using h by (simp add: writeChapter_unrolled)
  with assms show "r = Inl (new_Error (''Failed to write chapter '' @ show_int (oc_chapterNumber chapter)))"
    "calls w' = calls w + 3" "sleeps w' = sleeps w @ [2000, 4000]" by auto
qed

theorem C5_retry_policy_witness:
  "writeChapter (sampleEnv (failingBefore 2 serviceOverloaded ''Once upon a time'')) (sampleChapter 2) (sampleOutline [1, 2]) [] standard
      (sampleWorld []) =
     (Inr ''Once upon a time'',
      (sampleWorld [])\<lparr>invoked := [2], calls := 3, sleeps := [2000, 4000]\<rparr>)
   \<and> fst (writeChapter (sampleEnv (alwaysThrows serviceOverloaded)) (sampleChapter 2)
            (sampleOutline [1, 2]) [] standard (sampleWorld []))
     = Inl (new_Error ''Failed to write chapter 2'')"
proof
  let ?env = "sampleEnv (failingBefore 2 serviceOverloaded ''Once upon a time'')"
  let ?w = "sampleWorld []"
  obtain r w' where run: "writeChapter ?env (sampleChapter 2) (sampleOutline [1, 2]) [] standard ?w = (r, w')"
    by (cases "writeChapter ?env (sampleChapter 2) (sampleOutline [1, 2]) [] standard ?w")
  have b: "backend ?env (calls ?w) = Throws serviceOverloaded \<and> \<not> isFatalError serviceOverloaded
         \<and> backend ?env (calls ?w + 1) = Throws serviceOverloaded \<and> \<not> isFatalError serviceOverloaded
         \<and> backend ?env (calls ?w + 2) = Text (Some ''Once upon a time'')"
    using not_fatal_overloaded by (simp add: sampleEnv_def sampleWorld_def failingBefore_def)
  from C5_retry_policy[OF run] b
  have "r = Inr (text_or_empty (Some ''Once upon a time''))" "calls w' = calls ?w + 3"
       "sleeps w' = sleeps ?w @ [2000, 4000]"
    by blast+
  with writeChapter_frame[OF run] run
  show "writeChapter ?env (sampleChapter 2) (sampleOutline [1, 2]) [] standard ?w =
     (Inr ''Once upon a time'', ?w\<lparr>invoked := [2], calls := 3, sleeps := [2000, 4000]\<rparr>)"
    by (simp add: text_or_empty_def sampleWorld_def sampleChapter_def)
next
  let ?env = "sampleEnv (alwaysThrows serviceOverloaded)"
  let ?w = "sampleWorld []"
  obtain r w' where run: "writeChapter ?env (sampleChapter 2) (sampleOutline [1, 2]) [] standard ?w = (r, w')"
    by (cases "writeChapter ?env (sampleChapter 2) (sampleOutline [1, 2]) [] standard ?w")
  have b: "backend ?env (calls ?w) = Throws serviceOverloaded \<and> \<not> isFatalError serviceOverloaded
         \<and> backend ?env (calls ?w + 1) = Throws serviceOverloaded \<and> \<not> isFatalError serviceOverloaded
         \<and> backend ?env (calls ?w + 2) = Throws serviceOverloaded \<and> \<not> isFatalError serviceOverloaded"
    using not_fatal_overloaded by (simp add: sampleEnv_def alwaysThrows_def)
  have s2: "show_int 2 = ''2''"
    by (simp add: show_int_def show_nat.simps)
  from C5_retry_policy[OF run] b
  have "r = Inl (new_Error (''Failed to write chapter '' @ show_int (oc_chapterNumber (sampleChapter 2))))"
    by blast
  with run s2
  show "fst (writeChapter ?env (sampleChapter 2) (sampleOutline [1, 2]) [] standard ?w)
     = Inl (new_Error ''Failed to write chapter 2'')"
    by (simp add: sampleChapter_def)
qed

text \<open>
  Claim C1, at a failing input. The backend answers the first call, made for chapter 1 of
  2, with an error of status 401. \<open>isFatalError\<close> classifies it as fatal, so
  \<open>writeChapter\<close> throws it at once (one call, no sleep); the catch block of the loop
  tests only status 403 and two message fragments, so the chapter gets the text of a
  transient failure, nothing is passed to \<open>alert\<close>, \<open>hasFatalError\<close> stays false and
  chapter 2 is generated.
\<close>

theorem C1_unauthorized_not_fatal_in_pipeline:
  "isFatalError unauthorized \<and> \<not> isFatal unauthorized
   \<and> startBookGeneration_run (sampleEnv (failingAt 0 unauthorized ''Two'')) ''p1'' standard
        (sampleWorld [sampleProject [1, 2] []])
      = Some (False,
          \<lparr>projects = [sampleProject [1, 2]
                         [sampleEntry 1 ''Generation failed. Please retry.'' False,
                          sampleEntry 2 ''Two'' False]\<lparr>lastModified := 1002\<rparr>],
           generatingProjectId = None, wakeLockRef = None, calls = 2, sleeps = [],
           invoked = [1, 2], alerts = [], wakeEvents = [Acquired 7, Released 7]\<rparr>)"
  by code_simp

text \<open>
  Claim C2, at a failing input. A first run in which the three attempts for chapter 1
  fail transiently stores the text of a failure for it, with \<open>isGenerating\<close> false. A
  second run on the resulting world, with a backend that would answer, calls
  \<open>writeChapter\<close> for no chapter: the skip check takes the stored failure text for
  finished content, and the stored texts stay as they were.
\<close>

theorem C2_failed_chapter_not_retried:
  "storedContents (startBookGeneration (sampleEnv (failingBefore 3 serviceOverloaded ''Two''))
      ''p1'' standard (sampleWorld [sampleProject [1, 2] []]))
     = [ [''Generation failed. Please retry.'', ''Two'']]
   \<and> invokedSince
        (startBookGeneration (sampleEnv (failingBefore 3 serviceOverloaded ''Two''))
           ''p1'' standard (sampleWorld [sampleProject [1, 2] []]))
        (startBookGeneration (sampleEnv (alwaysAnswers (Some ''Retried'')))  ''p1'' standard
          (startBookGeneration (sampleEnv (failingBefore 3 serviceOverloaded ''Two''))
             ''p1'' standard (sampleWorld [sampleProject [1, 2] []])))
     = []
   \<and> storedContents
        (startBookGeneration (sampleEnv (alwaysAnswers (Some ''Retried'')))  ''p1'' standard
          (startBookGeneration (sampleEnv (failingBefore 3 serviceOverloaded ''Two''))
             ''p1'' standard (sampleWorld [sampleProject [1, 2] []])))
     = [ [''Generation failed. Please retry.'', ''Two'']]"
  by code_simp

text \<open>
  Claim C3 fails as stated: with an outline of five chapters and three stored entries
  the run starts from the three stored entries, and stores those.
\<close>

theorem C3_counterexample:
  "map chapterNumber (fst (runStart (sampleEnv (alwaysAnswers (Some ''Text''))) ''p1''
      (sampleProject [1, 2, 3, 4, 5]
         [sampleEntry 1 ''One'' False, sampleEntry 2 ''Two'' False, sampleEntry 3 ''Three'' False])
      (sampleOutline [1, 2, 3, 4, 5])
      (sampleWorld [sampleProject [1, 2, 3, 4, 5]
         [sampleEntry 1 ''One'' False, sampleEntry 2 ''Two'' False, sampleEntry 3 ''Three'' False]])))
     = [1, 2, 3]
   \<and> storedNumbers (snd (runStart (sampleEnv (alwaysAnswers (Some ''Text''))) ''p1''
      (sampleProject [1, 2, 3, 4, 5]
         [sampleEntry 1 ''One'' False, sampleEntry 2 ''Two'' False, sampleEntry 3 ''Three'' False])
      (sampleOutline [1, 2, 3, 4, 5])
      (sampleWorld [sampleProject [1, 2, 3, 4, 5]
         [sampleEntry 1 ''One'' False, sampleEntry 2 ''Two'' False, sampleEntry 3 ''Three'' False]])))
     = [ [1, 2, 3]]"
  by code_simp

text \<open>
  Claim C3, amended. Before any backend call and any call of \<open>writeChapter\<close>, the run's
  chapter list is the stored one when that is not empty, kept as it is, and otherwise one
  new entry per outline chapter, in the outline's order, with empty content and
  \<open>isGenerating\<close> true; every stored project with the run's id then holds that list.
\<close>

theorem C3_chapters_initialised_only_when_empty:
  assumes "project_id project = projectId"
      and "runStart env projectId project ol w = (currentChapters, w')"
  shows "calls w' = calls w \<and> invoked w' = invoked w
       \<and> (chapters project = [] \<longrightarrow>
            map chapterNumber currentChapters = map oc_chapterNumber (ol_chapters ol)
            \<and> (\<forall>c \<in> set currentChapters. content c = [] \<and> isGenerating c))
       \<and> (chapters project \<noteq> [] \<longrightarrow> currentChapters = chapters project)
       \<and> (\<forall>p \<in> set (projects w'). project_id p = projectId \<longrightarrow> chapters p = currentChapters)"
  using assms
  by (auto simp: runStart_def requestWakeLock_def handleUpdateProject_def updateProjects_def
        initialChapters_def newChapter_def Let_def split: WakeLockRequest.splits)

theorem C3_chapters_initialised_only_when_empty_witness:
  "map chapterNumber (fst (runStart (sampleEnv (alwaysAnswers None)) ''p1''
      (sampleProject [1, 2] []) (sampleOutline [1, 2]) (sampleWorld [sampleProject [1, 2] []])))
     = [1, 2]
   \<and> fst (runStart (sampleEnv (alwaysAnswers None)) ''p1''
      (sampleProject [1, 2] [sampleEntry 1 ''One'' False]) (sampleOutline [1, 2])
      (sampleWorld [sampleProject [1, 2] [sampleEntry 1 ''One'' False]]))
     = [sampleEntry 1 ''One'' False]"
proof
  let ?p = "sampleProject [1, 2] []"
  obtain cur w' where run: "runStart (sampleEnv (alwaysAnswers None)) ''p1'' ?p
      (sampleOutline [1, 2]) (sampleWorld [?p]) = (cur, w')"
    by (cases "runStart (sampleEnv (alwaysAnswers None)) ''p1'' ?p (sampleOutline [1, 2])
                 (sampleWorld [?p])")
  have pid: "project_id ?p = ''p1''" and empty: "chapters ?p = []"
    by (simp_all add: sampleProject_def)
  from C3_chapters_initialised_only_when_empty[OF pid run] empty
  have "map chapterNumber cur = map oc_chapterNumber (ol_chapters (sampleOutline [1, 2]))"
    by blast
  with run show "map chapterNumber (fst (runStart (sampleEnv (alwaysAnswers None)) ''p1'' ?p
      (sampleOutline [1, 2]) (sampleWorld [?p]))) = [1, 2]"
    by (simp add: sampleOutline_def sampleChapter_def)
next
  let ?p = "sampleProject [1, 2] [sampleEntry 1 ''One'' False]"
  obtain cur w' where run: "runStart (sampleEnv (alwaysAnswers None)) ''p1'' ?p
      (sampleOutline [1, 2]) (sampleWorld [?p]) = (cur, w')"
    by (cases "runStart (sampleEnv (alwaysAnswers None)) ''p1'' ?p (sampleOutline [1, 2])
                 (sampleWorld [?p])")
  have pid: "project_id ?p = ''p1''" and nonempty: "chapters ?p \<noteq> []"
    by (simp_all add: sampleProject_def)
  from C3_chapters_initialised_only_when_empty[OF pid run] nonempty
  have "cur = chapters ?p"
    by blast
  with run show "fst (runStart (sampleEnv (alwaysAnswers None)) ''p1'' ?p
      (sampleOutline [1, 2]) (sampleWorld [?p])) = [sampleEntry 1 ''One'' False]"
    by (simp add: sampleProject_def)
qed

text \<open>
  Claim C4 fails as stated: while \<open>generatingProjectId\<close> already holds the project's
  id, a further start for that project is admitted, generates its chapter, and reports
  nothing.
\<close>

theorem C4_counterexample:
  "invoked (startBookGeneration (sampleEnv (alwaysAnswers (Some ''Text''))) ''p1'' standard
      ((sampleWorld [sampleProject [1] []])\<lparr>generatingProjectId := Some ''p1''\<rparr>)) = [1]
   \<and> alerts (startBookGeneration (sampleEnv (alwaysAnswers (Some ''Text''))) ''p1'' standard
      ((sampleWorld [sampleProject [1] []])\<lparr>generatingProjectId := Some ''p1''\<rparr>)) = []"
  by code_simp

text \<open>
  Claim C4, amended. \<open>startBookGeneration\<close> does not read \<open>generatingProjectId\<close>.
  A start for a project that exists and has an outline is always admitted and runs as
  it would with any other value of the slot, also when the slot already holds the
  project's id; what such a run passes to \<open>alert\<close> is nothing, or the one text of a
  fatal backend error. A start for a project that is missing or has no outline returns
  with the world as it was. The slot is a single value: the start of a run sets it to
  the run's project id whatever it held, and a run leaves it null. The one guard is in
  the editor's auto-start effect: it does not request a start when the slot holds the
  active project's id, and when it holds anything else the effect decides as if no run
  were active.
\<close>

theorem C4_start_is_unguarded:
  "(find (\<lambda>p. project_id p = projectId) (projects w) = Some project \<and> outline project = Some ol
      \<longrightarrow> (\<exists>hasFatalError w'.
             startBookGeneration_run env projectId style (w\<lparr>generatingProjectId := g\<rparr>)
               = Some (hasFatalError, w')
             \<and> startBookGeneration_run env projectId style w = Some (hasFatalError, w')
             \<and> generatingProjectId w' = None
             \<and> (alerts w' = alerts w
                  \<or> (\<exists>k e. backend env k = Throws e \<and> isFatal e
                         \<and> alerts w' = alerts w @ [alertText e])))
          \<and> generatingProjectId
               (snd (runStart env projectId project ol (w\<lparr>generatingProjectId := g\<rparr>)))
              = Some projectId)
   \<and> (find (\<lambda>p. project_id p = projectId) (projects w) = None
        \<or> (\<exists>p. find (\<lambda>p. project_id p = projectId) (projects w) = Some p \<and> outline p = None)
      \<longrightarrow> startBookGeneration env projectId style (w\<lparr>generatingProjectId := g\<rparr>)
            = w\<lparr>generatingProjectId := g\<rparr>)
   \<and> (generatingProjectId w = Some (project_id activeProject)
      \<longrightarrow> \<not> autoStartRequested activeProject isProcessing
              (isGeneratingGlobal w activeProject) error)
   \<and> (generatingProjectId w \<noteq> Some (project_id activeProject)
      \<longrightarrow> autoStartRequested activeProject isProcessing (isGeneratingGlobal w activeProject) error
          = autoStartRequested activeProject isProcessing False error)"
proof (intro conjI impI)
  assume h: "find (\<lambda>p. project_id p = projectId) (projects w) = Some project
             \<and> outline project = Some ol"
  then have f: "find (\<lambda>p. project_id p = projectId) (projects w) = Some project"
    and o: "outline project = Some ol" by simp_all
  have same: "startBookGeneration_run env projectId style (w\<lparr>generatingProjectId := g\<rparr>)
              = startBookGeneration_run env projectId style w"
    using f o by (simp add: startBookGeneration_run_def runStart_overwrites_slot)
  from f o obtain cur' hf w4 where
    run: "startBookGeneration_run env projectId style w
       = Some (hf, releaseWakeLock env (w4\<lparr>generatingProjectId := None\<rparr>))"
    by (rule startBookGeneration_run_parts)
  let ?w' = "releaseWakeLock env (w4\<lparr>generatingProjectId := None\<rparr>)"
  have cleared: "generatingProjectId ?w' = None"
    using runEnd_fields(6)[of env w4] by (simp add: runEnd_def)
  from run_alerts[OF run] same run cleared
  show "\<exists>hasFatalError w'.
             startBookGeneration_run env projectId style (w\<lparr>generatingProjectId := g\<rparr>)
               = Some (hasFatalError, w')
             \<and> startBookGeneration_run env projectId style w = Some (hasFatalError, w')
             \<and> generatingProjectId w' = None
             \<and> (alerts w' = alerts w
                  \<or> (\<exists>k e. backend env k = Throws e \<and> isFatal e
                         \<and> alerts w' = alerts w @ [alertText e]))"
    by (intro exI[of _ hf] exI[of _ ?w']) simp
  show "generatingProjectId
               (snd (runStart env projectId project ol (w\<lparr>generatingProjectId := g\<rparr>)))
              = Some projectId"
    using runStart_fields(6)[of env projectId project ol "w\<lparr>generatingProjectId := g\<rparr>"]
    by (cases "runStart env projectId project ol (w\<lparr>generatingProjectId := g\<rparr>)") simp
next
  assume "find (\<lambda>p. project_id p = projectId) (projects w) = None
        \<or> (\<exists>p. find (\<lambda>p. project_id p = projectId) (projects w) = Some p \<and> outline p = None)"
  then have "startBookGeneration_run env projectId style (w\<lparr>generatingProjectId := g\<rparr>) = None"
    by (auto simp: startBookGeneration_run_def)
  then show "startBookGeneration env projectId style (w\<lparr>generatingProjectId := g\<rparr>)
            = w\<lparr>generatingProjectId := g\<rparr>"
    by (simp add: startBookGeneration_def)
next
  assume "generatingProjectId w = Some (project_id activeProject)"
  then show "\<not> autoStartRequested activeProject isProcessing
              (isGeneratingGlobal w activeProject) error"
    by (simp add: autoStartRequested_def isGeneratingGlobal_def)
next
  assume "generatingProjectId w \<noteq> Some (project_id activeProject)"
  then show "autoStartRequested activeProject isProcessing (isGeneratingGlobal w activeProject) error
          = autoStartRequested activeProject isProcessing False error"
    by (simp add: isGeneratingGlobal_def)
qed

theorem C4_start_is_unguarded_witness:
  "generatingProjectId (startBookGeneration (sampleEnv (alwaysAnswers (Some ''Text''))) ''p1''
      standard ((sampleWorld [sampleProject [1] []])\<lparr>generatingProjectId := Some ''p1''\<rparr>))
     = None
   \<and> startBookGeneration (sampleEnv (alwaysAnswers (Some ''Text''))) ''p9'' standard
        ((sampleWorld [sampleProject [1] []])\<lparr>generatingProjectId := Some ''p1''\<rparr>)
     = (sampleWorld [sampleProject [1] []])\<lparr>generatingProjectId := Some ''p1''\<rparr>
   \<and> \<not> autoStartRequested (sampleProject [1] []) False
         (isGeneratingGlobal ((sampleWorld [sampleProject [1] []])\<lparr>generatingProjectId := Some ''p1''\<rparr>)
            (sampleProject [1] [])) None
   \<and> autoStartRequested (sampleProject [1] []) False
         (isGeneratingGlobal (sampleWorld [sampleProject [1] []]) (sampleProject [1] [])) None"
proof (intro conjI)
  let ?env = "sampleEnv (alwaysAnswers (Some ''Text''))"
  let ?p = "sampleProject [1] []"
  let ?w = "sampleWorld [?p]"
  let ?wg = "?w\<lparr>generatingProjectId := Some ''p1''\<rparr>"
  have h1: "find (\<lambda>p. project_id p = ''p1'') (projects ?w) = Some ?p
            \<and> outline ?p = Some (sampleOutline [1])"
    by (simp add: sampleWorld_def sampleProject_def)
  note i1 = C4_start_is_unguarded[where projectId = "''p1''" and w = ?w and project = ?p
      and ol = "sampleOutline [1]" and env = ?env and style = standard and g = "Some ''p1''"
      and activeProject = ?p and isProcessing = False and error = None]
  from mp[OF i1[THEN conjunct1] h1]
  obtain hf w' where run: "startBookGeneration_run ?env ''p1'' standard ?wg = Some (hf, w')"
    and cleared: "generatingProjectId w' = None"
    by blast
  from run have "startBookGeneration ?env ''p1'' standard ?wg = w'"
    by (simp add: startBookGeneration_def)
  with cleared show "generatingProjectId (startBookGeneration ?env ''p1'' standard ?wg) = None"
    by simp
  have h2: "find (\<lambda>p. project_id p = ''p9'') (projects ?w) = None
        \<or> (\<exists>p. find (\<lambda>p. project_id p = ''p9'') (projects ?w) = Some p \<and> outline p = None)"
    by (simp add: sampleWorld_def sampleProject_def)
  note i2 = C4_start_is_unguarded[where projectId = "''p9''" and w = ?w and project = ?p
      and ol = "sampleOutline [1]" and env = ?env and style = standard and g = "Some ''p1''"
      and activeProject = ?p and isProcessing = False and error = None]
  from mp[OF i2[THEN conjunct2, THEN conjunct1] h2]
  show "startBookGeneration ?env ''p9'' standard ?wg = ?wg" .
  have h3: "generatingProjectId ?wg = Some (project_id ?p)"
    by (simp add: sampleProject_def)
  note i3 = C4_start_is_unguarded[where projectId = "''p1''" and w = ?wg and project = ?p
      and ol = "sampleOutline [1]" and env = ?env and style = standard and g = "Some ''p1''"
      and activeProject = ?p and isProcessing = False and error = None]
  from mp[OF i3[THEN conjunct2, THEN conjunct2, THEN conjunct1] h3]
  show "\<not> autoStartRequested ?p False (isGeneratingGlobal ?wg ?p) None" .
  have h4: "generatingProjectId ?w \<noteq> Some (project_id ?p)"
    by (simp add: sampleWorld_def)
  from mp[OF i1[THEN conjunct2, THEN conjunct2, THEN conjunct2] h4]
  have "autoStartRequested ?p False (isGeneratingGlobal ?w ?p) None
        = autoStartRequested ?p False False None" .
  moreover have "autoStartRequested ?p False False None"
    by (simp add: autoStartRequested_def sampleProject_def)
  ultimately show "autoStartRequested ?p False (isGeneratingGlobal ?w ?p) None"
    by simp
qed

text \<open>
  Claim C8 fails as stated: the write of a generated chapter also replaces the
  project's \<open>lastModified\<close>.
\<close>

theorem C8_counterexample:
  "map lastModified (persistSuccess ''p1'' 2 ''Two'' 1234
       [sampleProject [1, 2] [sampleEntry 1 ''One'' False, sampleEntry 2 [] True]])
     \<noteq> map lastModified [sampleProject [1, 2] [sampleEntry 1 ''One'' False, sampleEntry 2 [] True]]"
  by code_simp

text \<open>
  Claim C8, amended. The two per-chapter writes, of a generated chapter and of a failure,
  are functions of the latest value of \<open>projects\<close>. They leave every project with
  another id as it is. In every project they keep the number and the title of every
  chapter entry, so that no entry is added or dropped; in the projects with the run's id
  they set the content and the \<open>isGenerating\<close> mark of exactly the entries with the
  processed chapter number (to the generated text or the failure text, and to false), and
  leave them as they were in every other entry. Every other field of every project stays
  as it is, except that the write of a generated chapter sets \<open>lastModified\<close> of the
  run's project to the current time. So a title stored by \<open>handleUpdateProject\<close>
  before the write of a chapter is still there after it.
\<close>

theorem C8_chapter_writes_merge:
  "filter (\<lambda>p. project_id p \<noteq> projectId) (persistSuccess projectId n body now prev)
       = filter (\<lambda>p. project_id p \<noteq> projectId) prev
   \<and> filter (\<lambda>p. project_id p \<noteq> projectId) (persistFailure projectId n fatal prev)
       = filter (\<lambda>p. project_id p \<noteq> projectId) prev
   \<and> map otherFields (persistSuccess projectId n body now prev) = map otherFields prev
   \<and> map otherFields (persistFailure projectId n fatal prev) = map otherFields prev
   \<and> map lastModified (persistSuccess projectId n body now prev)
       = map (\<lambda>p. if project_id p = projectId then now else lastModified p) prev
   \<and> map lastModified (persistFailure projectId n fatal prev) = map lastModified prev
   \<and> map (\<lambda>p. map chapterNumber (chapters p)) (persistSuccess projectId n body now prev)
       = map (\<lambda>p. map chapterNumber (chapters p)) prev
   \<and> map (\<lambda>p. map ch_title (chapters p)) (persistSuccess projectId n body now prev)
       = map (\<lambda>p. map ch_title (chapters p)) prev
   \<and> map (\<lambda>p. map content (chapters p)) (persistSuccess projectId n body now prev)
       = map (\<lambda>p. map (\<lambda>c. if project_id p = projectId \<and> chapterNumber c = n then body
                            else content c) (chapters p)) prev
   \<and> map (\<lambda>p. map isGenerating (chapters p)) (persistSuccess projectId n body now prev)
       = map (\<lambda>p. map (\<lambda>c. if project_id p = projectId \<and> chapterNumber c = n then False
                            else isGenerating c) (chapters p)) prev
   \<and> map (\<lambda>p. map chapterNumber (chapters p)) (persistFailure projectId n fatal prev)
       = map (\<lambda>p. map chapterNumber (chapters p)) prev
   \<and> map (\<lambda>p. map ch_title (chapters p)) (persistFailure projectId n fatal prev)
       = map (\<lambda>p. map ch_title (chapters p)) prev
   \<and> map (\<lambda>p. map content (chapters p)) (persistFailure projectId n fatal prev)
       = map (\<lambda>p. map (\<lambda>c. if project_id p = projectId \<and> chapterNumber c = n
                            then failureText fatal else content c) (chapters p)) prev
   \<and> map (\<lambda>p. map isGenerating (chapters p)) (persistFailure projectId n fatal prev)
       = map (\<lambda>p. map (\<lambda>c. if project_id p = projectId \<and> chapterNumber c = n then False
                            else isGenerating c) (chapters p)) prev
   \<and> (m \<noteq> n \<longrightarrow>
         map (entriesOf m) (persistSuccess projectId n body now prev) = map (entriesOf m) prev
         \<and> map (entriesOf m) (persistFailure projectId n fatal prev) = map (entriesOf m) prev)
   \<and> map title (persistSuccess projectId n body now (updateProjects (p\<lparr>title := t\<rparr>) prev))
       = map (\<lambda>q. if project_id q = project_id p then t else title q) prev"
proof (intro conjI)
  show "filter (\<lambda>p. project_id p \<noteq> projectId) (persistSuccess projectId n body now prev)
       = filter (\<lambda>p. project_id p \<noteq> projectId) prev"
    by (rule persistSuccess_other_projects)
  show "filter (\<lambda>p. project_id p \<noteq> projectId) (persistFailure projectId n fatal prev)
       = filter (\<lambda>p. project_id p \<noteq> projectId) prev"
    by (rule persistFailure_other_projects)
  show "map otherFields (persistSuccess projectId n body now prev) = map otherFields prev"
    by (rule otherFields_persistSuccess)
  show "map otherFields (persistFailure projectId n fatal prev) = map otherFields prev"
    by (rule otherFields_persistFailure)
  show "map lastModified (persistSuccess projectId n body now prev)
       = map (\<lambda>p. if project_id p = projectId then now else lastModified p) prev"
    by (rule persistSuccess_lastModified)
  show "map lastModified (persistFailure projectId n fatal prev) = map lastModified prev"
    by (simp add: persistFailure_def)
  show "map (\<lambda>p. map chapterNumber (chapters p)) (persistSuccess projectId n body now prev)
       = map (\<lambda>p. map chapterNumber (chapters p)) prev"
    by (rule persistSuccess_chapters)
  show "map (\<lambda>p. map ch_title (chapters p)) (persistSuccess projectId n body now prev)
       = map (\<lambda>p. map ch_title (chapters p)) prev"
    by (rule persistSuccess_chapters)
  show "map (\<lambda>p. map content (chapters p)) (persistSuccess projectId n body now prev)
       = map (\<lambda>p. map (\<lambda>c. if project_id p = projectId \<and> chapterNumber c = n then body
                            else content c) (chapters p)) prev"
    by (rule persistSuccess_chapters)
  show "map (\<lambda>p. map isGenerating (chapters p)) (persistSuccess projectId n body now prev)
       = map (\<lambda>p. map (\<lambda>c. if project_id p = projectId \<and> chapterNumber c = n then False
                            else isGenerating c) (chapters p)) prev"
    by (rule persistSuccess_chapters)
  show "map (\<lambda>p. map chapterNumber (chapters p)) (persistFailure projectId n fatal prev)
       = map (\<lambda>p. map chapterNumber (chapters p)) prev"
    by (rule persistFailure_chapters)
  show "map (\<lambda>p. map ch_title (chapters p)) (persistFailure projectId n fatal prev)
       = map (\<lambda>p. map ch_title (chapters p)) prev"
    by (rule persistFailure_chapters)
  show "map (\<lambda>p. map content (chapters p)) (persistFailure projectId n fatal prev)
       = map (\<lambda>p. map (\<lambda>c. if project_id p = projectId \<and> chapterNumber c = n
                            then failureText fatal else content c) (chapters p)) prev"
    by (rule persistFailure_chapters)
  show "map (\<lambda>p. map isGenerating (chapters p)) (persistFailure projectId n fatal prev)
       = map (\<lambda>p. map (\<lambda>c. if project_id p = projectId \<and> chapterNumber c = n then False
                            else isGenerating c) (chapters p)) prev"
    by (rule persistFailure_chapters)
  show "m \<noteq> n \<longrightarrow>
         map (entriesOf m) (persistSuccess projectId n body now prev) = map (entriesOf m) prev
         \<and> map (entriesOf m) (persistFailure projectId n fatal prev) = map (entriesOf m) prev"
    by (simp add: entriesOf_persistSuccess entriesOf_persistFailure)
  show "map title (persistSuccess projectId n body now (updateProjects (p\<lparr>title := t\<rparr>) prev))
       = map (\<lambda>q. if project_id q = project_id p then t else title q) prev"
    by (rule title_after_update_and_write)
qed

theorem C8_chapter_writes_merge_witness:
  "map (entriesOf 1) (persistSuccess ''p1'' 2 ''Two'' 99
        [sampleProject [1, 2] [sampleEntry 1 ''One'' False, sampleEntry 2 [] True]])
     = [ [sampleEntry 1 ''One'' False]]
   \<and> map title (persistSuccess ''p1'' 2 ''Two'' 99
        (updateProjects ((sampleProject [1, 2] [sampleEntry 1 ''One'' False, sampleEntry 2 [] True])
                           \<lparr>title := ''Renamed''\<rparr>)
           [sampleProject [1, 2] [sampleEntry 1 ''One'' False, sampleEntry 2 [] True]]))
     = [''Renamed'']
   \<and> map (\<lambda>p. map content (chapters p)) (persistSuccess ''p1'' 2 ''Two'' 99
        [sampleProject [1, 2] [sampleEntry 1 ''One'' False, sampleEntry 2 [] True]])
     = [ [''One'', ''Two'']]
   \<and> map lastModified (persistSuccess ''p1'' 2 ''Two'' 99
        [sampleProject [1, 2] [sampleEntry 1 ''One'' False, sampleEntry 2 [] True]])
     = [99]"
proof -
  let ?p = "sampleProject [1, 2] [sampleEntry 1 ''One'' False, sampleEntry 2 [] True]"
  have ne: "(1::int) \<noteq> 2" by simp
  note inst = C8_chapter_writes_merge[where projectId = "''p1''" and n = 2 and body = "''Two''"
      and now = 99 and prev = "[?p]" and fatal = False and m = 1 and p = ?p and t = "''Renamed''"]
  from inst have "(1::int) \<noteq> 2 \<longrightarrow>
      map (entriesOf 1) (persistSuccess ''p1'' 2 ''Two'' 99 [?p]) = map (entriesOf 1) [?p]
      \<and> map (entriesOf 1) (persistFailure ''p1'' 2 False [?p]) = map (entriesOf 1) [?p]"
    by (elim conjE) assumption
  with ne have "map (entriesOf 1) (persistSuccess ''p1'' 2 ''Two'' 99 [?p]) = map (entriesOf 1) [?p]"
    by (elim impE conjE) assumption
  then have a: "map (entriesOf 1) (persistSuccess ''p1'' 2 ''Two'' 99 [?p])
                = [ [sampleEntry 1 ''One'' False]]"
    by (simp add: entriesOf_def sampleProject_def sampleEntry_def)
  from inst have "map title (persistSuccess ''p1'' 2 ''Two'' 99
                    (updateProjects (?p\<lparr>title := ''Renamed''\<rparr>) [?p]))
       = map (\<lambda>q. if project_id q = project_id ?p then ''Renamed'' else title q) [?p]"
    by (elim conjE) assumption
  then have b: "map title (persistSuccess ''p1'' 2 ''Two'' 99
                    (updateProjects (?p\<lparr>title := ''Renamed''\<rparr>) [?p])) = [''Renamed'']"
    by simp
  from inst have "map (\<lambda>p. map content (chapters p)) (persistSuccess ''p1'' 2 ''Two'' 99 [?p])
       = map (\<lambda>p. map (\<lambda>c. if project_id p = ''p1'' \<and> chapterNumber c = 2 then ''Two''
                            else content c) (chapters p)) [?p]"
    by (elim conjE) assumption
  then have c: "map (\<lambda>p. map content (chapters p)) (persistSuccess ''p1'' 2 ''Two'' 99 [?p])
                = [ [''One'', ''Two'']]"
    by (simp add: sampleProject_def sampleEntry_def)
  from inst have "map lastModified (persistSuccess ''p1'' 2 ''Two'' 99 [?p])
       = map (\<lambda>p. if project_id p = ''p1'' then 99 else lastModified p) [?p]"
    by (elim conjE) assumption
  then have d: "map lastModified (persistSuccess ''p1'' 2 ''Two'' 99 [?p]) = [99]"
    by (simp add: sampleProject_def)
  from a b c d show ?thesis by (intro conjI)
qed

text \<open>
  Claim C9 fails as stated: for a response without text \<open>writeChapter\<close> returns the
  empty string after one call and no sleep, and the run stores the chapter with empty
  content and \<open>isGenerating\<close> false.
\<close>

theorem C9_counterexample:
  "writeChapter (sampleEnv (alwaysAnswers None)) (sampleChapter 1) (sampleOutline [1]) []
      standard (sampleWorld [sampleProject [1] []])
     = (Inr [], (sampleWorld [sampleProject [1] []])\<lparr>invoked := [1], calls := 1\<rparr>)
   \<and> startBookGeneration_run (sampleEnv (alwaysAnswers None)) ''p1'' standard
        (sampleWorld [sampleProject [1] []])
     = Some (False,
          \<lparr>projects = [sampleProject [1] [sampleEntry 1 [] False]\<lparr>lastModified := 1001\<rparr>],
           generatingProjectId = None, wakeLockRef = None, calls = 1, sleeps = [],
           invoked = [1], alerts = [], wakeEvents = [Acquired 7, Released 7]\<rparr>)"
  by code_simp

text \<open>
  Claim C9, amended. A response whose text is missing or empty is not a failure and is
  not retried: \<open>writeChapter\<close> returns the empty string after that one call, without
  sleep; in any call of \<open>writeChapter\<close>, every backend call that is followed by another
  one threw an error that \<open>isFatalError\<close> does not classify as fatal, and there is one
  sleep per such retry. The loop then stores the chapter as generated: no entry is added
  or dropped, the entries with this chapter number in the run's project get empty
  content and \<open>isGenerating\<close> false, in the stored projects and in the loop's list, and
  nothing is passed to \<open>alert\<close>. An entry with empty content does not pass the skip
  check: a later run for a project whose first entry for the chapter has empty content
  calls \<open>writeChapter\<close> for it again, unless that run stops on a fatal error.
\<close>

theorem C9_empty_answer_stored_as_success:
  assumes "backend env (calls w) = Text t" and "text_or_empty t = []"
      and "processChapter env projectId project ol style c currentChapters hasFatalError w
             = (currentChapters', hasFatalError', w')"
  shows "writeChapter env c ol (sources project) style w
           = (Inr [], w\<lparr>calls := calls w + 1, invoked := invoked w @ [oc_chapterNumber c]\<rparr>)
       \<and> calls w' = calls w + 1 \<and> sleeps w' = sleeps w \<and> alerts w' = alerts w
       \<and> hasFatalError' = hasFatalError
       \<and> currentChapters' = setChapterContent (oc_chapterNumber c) [] currentChapters
       \<and> projects w' = persistSuccess projectId (oc_chapterNumber c) []
                          (clock env (calls w + 1)) (projects w)
       \<and> storedNumbers w' = storedNumbers w
       \<and> storedContents w'
           = map (\<lambda>p. map (\<lambda>ch. if project_id p = projectId \<and> chapterNumber ch = oc_chapterNumber c
                                then [] else content ch) (chapters p)) (projects w)
       \<and> map (\<lambda>p. map isGenerating (chapters p)) (projects w')
           = map (\<lambda>p. map (\<lambda>ch. if project_id p = projectId \<and> chapterNumber ch = oc_chapterNumber c
                                then False else isGenerating ch) (chapters p)) (projects w)
       \<and> (\<forall>e \<in> set currentChapters'. chapterNumber e = oc_chapterNumber c \<longrightarrow>
            content e = [] \<and> \<not> isGenerating e \<and> \<not> alreadyDone (Some e))
       \<and> (\<forall>env2 style2 w2 project2 ol2 e hf2 w2'.
            find (\<lambda>p. project_id p = projectId) (projects w2) = Some project2
            \<and> outline project2 = Some ol2
            \<and> findChapter (oc_chapterNumber c) (chapters project2) = Some e \<and> content e = []
            \<and> oc_chapterNumber c \<in> oc_chapterNumber ` set (ol_chapters ol2)
            \<and> startBookGeneration_run env2 projectId style2 w2 = Some (hf2, w2') \<and> \<not> hf2
            \<longrightarrow> oc_chapterNumber c \<in> set (invokedSince w2 w2'))
       \<and> (\<forall>env2 c2 ol2 srcs2 style2 w2 r2 w2'.
            writeChapter env2 c2 ol2 srcs2 style2 w2 = (r2, w2')
            \<longrightarrow> (\<forall>j. calls w2 \<le> j \<and> Suc j < calls w2' \<longrightarrow>
                     (\<exists>e. backend env2 j = Throws e \<and> \<not> isFatalError e))
                \<and> length (sleeps w2') = length (sleeps w2) + (calls w2' - calls w2 - 1))"
proof -
  let ?n = "oc_chapterNumber c"
  have wc: "writeChapter env c ol (sources project) style w
           = (Inr [], w\<lparr>calls := calls w + 1, invoked := invoked w @ [?n]\<rparr>)"
    using assms(1,2) by (simp add: writeChapter_unrolled)
  from processChapter_answered[OF assms(1), of projectId project ol style c currentChapters
      hasFatalError] assms(2,3)
  have res: "currentChapters' = setChapterContent ?n [] currentChapters"
    "hasFatalError' = hasFatalError"
    "w' = w\<lparr>projects := persistSuccess projectId ?n [] (clock env (calls w + 1)) (projects w),
              calls := calls w + 1, invoked := invoked w @ [?n]\<rparr>"
    by simp_all
  have local: "\<forall>e \<in> set currentChapters'. chapterNumber e = ?n \<longrightarrow>
            content e = [] \<and> \<not> isGenerating e \<and> \<not> alreadyDone (Some e)"
    using setChapterContent_content[of _ ?n "[]" currentChapters] res(1)
    by (simp add: alreadyDone_def)
  have stored: "storedNumbers w' = storedNumbers w"
    "storedContents w'
       = map (\<lambda>p. map (\<lambda>ch. if project_id p = projectId \<and> chapterNumber ch = ?n
                            then [] else content ch) (chapters p)) (projects w)"
    "map (\<lambda>p. map isGenerating (chapters p)) (projects w')
       = map (\<lambda>p. map (\<lambda>ch. if project_id p = projectId \<and> chapterNumber ch = ?n
                            then False else isGenerating ch) (chapters p)) (projects w)"
    using res(3)
    by (simp_all add: storedNumbers_def storedContents_def persistSuccess_chapters)
  have later: "\<forall>env2 style2 w2 project2 ol2 e hf2 w2'.
            find (\<lambda>p. project_id p = projectId) (projects w2) = Some project2
            \<and> outline project2 = Some ol2
            \<and> findChapter ?n (chapters project2) = Some e \<and> content e = []
            \<and> ?n \<in> oc_chapterNumber ` set (ol_chapters ol2)
            \<and> startBookGeneration_run env2 projectId style2 w2 = Some (hf2, w2') \<and> \<not> hf2
            \<longrightarrow> ?n \<in> set (invokedSince w2 w2')"
  proof (intro allI impI, elim conjE)
    fix env2 style2 w2 project2 ol2 e hf2 w2'
    assume f: "find (\<lambda>p. project_id p = projectId) (projects w2) = Some project2"
       and o: "outline project2 = Some ol2"
       and fc: "findChapter ?n (chapters project2) = Some e" and empty: "content e = []"
       and mem: "?n \<in> oc_chapterNumber ` set (ol_chapters ol2)"
       and run: "startBookGeneration_run env2 projectId style2 w2 = Some (hf2, w2')"
       and nf: "\<not> hf2"
    from mem obtain c2 where c2: "c2 \<in> set (ol_chapters ol2)" "oc_chapterNumber c2 = ?n"
      by auto
    from findChapter_nonempty[OF fc] have "initialChapters project2 ol2 = chapters project2"
      by (simp add: initialChapters_def)
    with fc empty have "\<not> alreadyDone (findChapter ?n (initialChapters project2 ol2))"
      by (simp add: alreadyDone_def)
    from run_pending_invoked[OF f o run nf c2 this]
    show "?n \<in> set (invokedSince w2 w2')" .
  qed
  have retries: "\<forall>env2 c2 ol2 srcs2 style2 w2 r2 w2'.
            writeChapter env2 c2 ol2 srcs2 style2 w2 = (r2, w2')
            \<longrightarrow> (\<forall>j. calls w2 \<le> j \<and> Suc j < calls w2' \<longrightarrow>
                     (\<exists>e. backend env2 j = Throws e \<and> \<not> isFatalError e))
                \<and> length (sleeps w2') = length (sleeps w2) + (calls w2' - calls w2 - 1)"
    using writeChapter_retries by blast
  from wc res(1,2) have head: "writeChapter env c ol (sources project) style w
           = (Inr [], w\<lparr>calls := calls w + 1, invoked := invoked w @ [?n]\<rparr>)
       \<and> calls w' = calls w + 1 \<and> sleeps w' = sleeps w \<and> alerts w' = alerts w
       \<and> hasFatalError' = hasFatalError
       \<and> currentChapters' = setChapterContent ?n [] currentChapters
       \<and> projects w' = persistSuccess projectId ?n [] (clock env (calls w + 1)) (projects w)"
    using res(3) by simp
  from head stored local later retries show ?thesis
    by (intro conjI) (elim conjE, assumption)+
qed

theorem C9_empty_answer_stored_as_success_witness:
  "fst (processChapter (sampleEnv (alwaysAnswers None)) ''p1''
          (sampleProject [1] [sampleEntry 1 [] True]) (sampleOutline [1]) standard
          (sampleChapter 1) [sampleEntry 1 [] True] False
          (sampleWorld [sampleProject [1] [sampleEntry 1 [] True]]))
     = [sampleEntry 1 [] False]
   \<and> \<not> alreadyDone (Some (sampleEntry 1 [] False))
   \<and> 1 \<in> set (invokedSince
        (startBookGeneration (sampleEnv (alwaysAnswers None)) ''p1'' standard
           (sampleWorld [sampleProject [1] []]))
        (startBookGeneration (sampleEnv (alwaysAnswers (Some ''Text''))) ''p1'' standard
           (startBookGeneration (sampleEnv (alwaysAnswers None)) ''p1'' standard
              (sampleWorld [sampleProject [1] []]))))
   \<and> (\<exists>e. backend (sampleEnv (failingBefore 2 serviceOverloaded ''Text'')) 0 = Throws e
            \<and> \<not> isFatalError e)"
proof -
  let ?env = "sampleEnv (alwaysAnswers None)"
  let ?p = "sampleProject [1] [sampleEntry 1 [] True]"
  let ?w = "sampleWorld [?p]"
  obtain cur' hf' w' where pc:
    "processChapter ?env ''p1'' ?p (sampleOutline [1]) standard (sampleChapter 1)
       [sampleEntry 1 [] True] False ?w = (cur', hf', w')"
    by (cases "processChapter ?env ''p1'' ?p (sampleOutline [1]) standard (sampleChapter 1)
       [sampleEntry 1 [] True] False ?w")
  have b: "backend ?env (calls ?w) = Text None"
    by (simp add: sampleEnv_def alwaysAnswers_def)
  have te: "text_or_empty None = []"
    by (simp add: text_or_empty_def)
  note inst = C9_empty_answer_stored_as_success[OF b te pc]
  from inst have cur: "cur' = setChapterContent (oc_chapterNumber (sampleChapter 1)) []
                                [sampleEntry 1 [] True]"
    by (elim conjE) assumption
  from inst have all: "\<forall>e \<in> set cur'. chapterNumber e = oc_chapterNumber (sampleChapter 1) \<longrightarrow>
            content e = [] \<and> \<not> isGenerating e \<and> \<not> alreadyDone (Some e)"
    by (elim conjE) assumption
  from cur have cur_eq: "cur' = [sampleEntry 1 [] False]"
    by (simp add: setChapterContent_def sampleChapter_def sampleEntry_def)
  then have "sampleEntry 1 [] False \<in> set cur'" by simp
  moreover have "chapterNumber (sampleEntry 1 [] False) = oc_chapterNumber (sampleChapter 1)"
    by (simp add: sampleChapter_def sampleEntry_def)
  ultimately have nd: "\<not> alreadyDone (Some (sampleEntry 1 [] False))"
    using all by blast
  from pc cur_eq have a: "fst (processChapter ?env ''p1'' ?p (sampleOutline [1]) standard
       (sampleChapter 1) [sampleEntry 1 [] True] False ?w) = [sampleEntry 1 [] False]"
    by simp
  let ?w2 = "startBookGeneration ?env ''p1'' standard (sampleWorld [sampleProject [1] []])"
  let ?env2 = "sampleEnv (alwaysAnswers (Some ''Text''))"
  let ?p2 = "(sampleProject [1] [sampleEntry 1 [] False])\<lparr>lastModified := 1001\<rparr>"
  have later_hyp:
    "find (\<lambda>p. project_id p = ''p1'') (projects ?w2) = Some ?p2
     \<and> outline ?p2 = Some (sampleOutline [1])
     \<and> findChapter (oc_chapterNumber (sampleChapter 1)) (chapters ?p2)
         = Some (sampleEntry 1 [] False)
     \<and> content (sampleEntry 1 [] False) = []
     \<and> oc_chapterNumber (sampleChapter 1) \<in> oc_chapterNumber ` set (ol_chapters (sampleOutline [1]))
     \<and> startBookGeneration_run ?env2 ''p1'' standard ?w2
         = Some (False, startBookGeneration ?env2 ''p1'' standard ?w2)
     \<and> \<not> False"
    by code_simp
  note later = inst[THEN conjunct2, THEN conjunct2, THEN conjunct2, THEN conjunct2,
      THEN conjunct2, THEN conjunct2, THEN conjunct2, THEN conjunct2, THEN conjunct2,
      THEN conjunct2, THEN conjunct2, THEN conjunct1, rule_format]
  from later[OF later_hyp]
  have "oc_chapterNumber (sampleChapter 1)
          \<in> set (invokedSince ?w2 (startBookGeneration ?env2 ''p1'' standard ?w2))" .
  then have c: "1 \<in> set (invokedSince ?w2 (startBookGeneration ?env2 ''p1'' standard ?w2))"
    by (simp add: sampleChapter_def)
  let ?env3 = "sampleEnv (failingBefore 2 serviceOverloaded ''Text'')"
  let ?w0 = "sampleWorld []"
  obtain r3 w3 where wc3: "writeChapter ?env3 (sampleChapter 1) (sampleOutline [1]) [] standard ?w0
       = (r3, w3)"
    by (cases "writeChapter ?env3 (sampleChapter 1) (sampleOutline [1]) [] standard ?w0")
  have "writeChapter ?env3 (sampleChapter 1) (sampleOutline [1]) [] standard ?w0
       = (Inr ''Text'', ?w0\<lparr>calls := 3, sleeps := [2000, 4000], invoked := [1]\<rparr>)"
    by code_simp
  with wc3 have "w3 = ?w0\<lparr>calls := 3, sleeps := [2000, 4000], invoked := [1]\<rparr>" by simp
  then have "calls w3 = 3" by simp
  then have range: "calls ?w0 \<le> 0 \<and> Suc 0 < calls w3"
    by (simp add: sampleWorld_def)
  note retries = inst[THEN conjunct2, THEN conjunct2, THEN conjunct2, THEN conjunct2,
      THEN conjunct2, THEN conjunct2, THEN conjunct2, THEN conjunct2, THEN conjunct2,
      THEN conjunct2, THEN conjunct2, THEN conjunct2, rule_format]
  from retries[OF wc3, THEN conjunct1, rule_format, OF range]
  have d: "\<exists>e. backend ?env3 0 = Throws e \<and> \<not> isFatalError e" .
  from a nd c d show ?thesis by (intro conjI)
qed

text \<open>
  Claim C6. Let a run be started for a project whose stored chapters hold an entry for
  chapter number \<open>n\<close>, \<open>e\<close> being the first such entry. If \<open>e\<close> has content and is
  not marked \<open>isGenerating\<close>, the run does not call \<open>writeChapter\<close> for \<open>n\<close> and
  the entries for \<open>n\<close> of the stored project are after the run what they were before
  it. If \<open>e\<close> is marked \<open>isGenerating\<close> (a status left over from an interrupted run)
  and \<open>n\<close> is a chapter of the outline, the run calls \<open>writeChapter\<close> for \<open>n\<close>,
  unless it has stopped on a fatal error.
\<close>

theorem C6_done_skipped_generating_retried:
  assumes "find (\<lambda>p. project_id p = projectId) (projects w) = Some project"
      and "outline project = Some ol"
      and "startBookGeneration_run env projectId style w = Some (hasFatalError, w')"
      and "findChapter n (chapters project) = Some e"
  shows "(content e \<noteq> [] \<and> \<not> isGenerating e \<longrightarrow>
            n \<notin> set (invokedSince w w')
            \<and> (\<forall>p' \<in> set (projects w'). project_id p' = projectId \<longrightarrow>
                  entriesOf n p' = entriesOf n project))
       \<and> (isGenerating e \<and> n \<in> oc_chapterNumber ` set (ol_chapters ol) \<and> \<not> hasFatalError \<longrightarrow>
            n \<in> set (invokedSince w w'))"
proof -
  from assms(4) have start: "initialChapters project ol = chapters project"
    using findChapter_nonempty[OF assms(4)] by (simp add: initialChapters_def)
  from find_project_id[OF assms(1)] have pid: "project_id project = projectId" by simp
  let ?w3 = "handleUpdateProject (project\<lparr>chapters := initialChapters project ol\<rparr>)
          (requestWakeLock env (w\<lparr>generatingProjectId := Some projectId\<rparr>))"
  from assms(1,2) obtain cur' hf w4 where
    loop: "generationLoop env projectId project ol style (ol_chapters ol)
       (initialChapters project ol) False ?w3 = (cur', hf, w4)"
    and run: "startBookGeneration_run env projectId style w
       = Some (hf, releaseWakeLock env (w4\<lparr>generatingProjectId := None\<rparr>))"
    by (rule startBookGeneration_run_parts)
  from run assms(3) have hf: "hf = hasFatalError"
    and w': "w' = releaseWakeLock env (w4\<lparr>generatingProjectId := None\<rparr>)" by simp_all
  have inv3: "invoked ?w3 = invoked w"
    by (simp add: handleUpdateProject_def requestWakeLock_fields)
  have inv': "invoked w' = invoked w4" and proj': "projects w' = projects w4"
    by (simp_all add: w' releaseWakeLock_fields)
  have since: "invoked w4 = invoked w @ new \<Longrightarrow> invokedSince w w' = new" for new
    by (simp add: invokedSince_def inv')
  show ?thesis
  proof (intro conjI impI)
    assume fin: "content e \<noteq> [] \<and> \<not> isGenerating e"
    with assms(4) start have "alreadyDone (findChapter n (initialChapters project ol))"
      by (simp add: alreadyDone_def)
    from generationLoop_done_untouched[OF loop this] inv3
    obtain new where new: "invoked w4 = invoked w @ new" "n \<notin> set new"
      and stored: "map (\<lambda>p. (project_id p, entriesOf n p)) (projects w4)
                   = map (\<lambda>p. (project_id p, entriesOf n p)) (projects ?w3)"
      by auto
    from since[OF new(1)] new(2) show "n \<notin> set (invokedSince w w')" by simp
    show "\<forall>p' \<in> set (projects w'). project_id p' = projectId \<longrightarrow> entriesOf n p' = entriesOf n project"
    proof (intro ballI impI)
      fix p' assume p': "p' \<in> set (projects w')" and id': "project_id p' = projectId"
      from p' proj' have "(project_id p', entriesOf n p')
          \<in> set (map (\<lambda>p. (project_id p, entriesOf n p)) (projects w4))" by force
      with stored obtain p3 where p3: "p3 \<in> set (projects ?w3)"
        and eq: "project_id p3 = project_id p'" "entriesOf n p3 = entriesOf n p'"
        by auto
      from p3 have "p3 \<in> set (updateProjects (project\<lparr>chapters := initialChapters project ol\<rparr>)
                               (projects w))"
        by (simp add: handleUpdateProject_def requestWakeLock_fields)
      from updateProjects_member[OF this] eq(1) id' pid
      have "p3 = project\<lparr>chapters := initialChapters project ol\<rparr>" by simp
      with start have "p3 = project" by simp
      with eq(2) show "entriesOf n p' = entriesOf n project" by simp
    qed
  next
    assume h: "isGenerating e \<and> n \<in> oc_chapterNumber ` set (ol_chapters ol) \<and> \<not> hasFatalError"
    then obtain c where c: "c \<in> set (ol_chapters ol)" "oc_chapterNumber c = n" by auto
    from h assms(4) start have "\<not> alreadyDone (findChapter n (initialChapters project ol))"
      by (simp add: alreadyDone_def)
    from generationLoop_pending_invoked[OF loop _ c this] h hf inv3
    obtain new where "invoked w4 = invoked w @ new" "n \<in> set new" by auto
    with since show "n \<in> set (invokedSince w w')" by simp
  qed
qed

theorem C6_done_skipped_generating_retried_witness:
  "1 \<notin> set (invokedSince (sampleWorld [resumedProject])
        (startBookGeneration (sampleEnv (alwaysAnswers (Some ''New''))) ''p1'' standard
           (sampleWorld [resumedProject])))
   \<and> 3 \<in> set (invokedSince (sampleWorld [resumedProject])
        (startBookGeneration (sampleEnv (alwaysAnswers (Some ''New''))) ''p1'' standard
           (sampleWorld [resumedProject])))"
proof -
  let ?env = "sampleEnv (alwaysAnswers (Some ''New''))"
  let ?w = "sampleWorld [resumedProject]"
  let ?w' = "startBookGeneration ?env ''p1'' standard ?w"
  have f: "find (\<lambda>p. project_id p = ''p1'') (projects ?w) = Some resumedProject"
    by (simp add: sampleWorld_def resumedProject_def sampleProject_def)
  have ol: "outline resumedProject = Some (sampleOutline [1, 2, 3, 4])"
    by (simp add: resumedProject_def sampleProject_def)
  have run: "startBookGeneration_run ?env ''p1'' standard ?w = Some (False, ?w')"
    by code_simp
  have e1: "findChapter 1 (chapters resumedProject) = Some (sampleEntry 1 ''One'' False)"
    by code_simp
  have e3: "findChapter 3 (chapters resumedProject) = Some (sampleEntry 3 [] True)"
    by code_simp
  have d1: "content (sampleEntry 1 ''One'' False) \<noteq> [] \<and> \<not> isGenerating (sampleEntry 1 ''One'' False)"
    by (simp add: sampleEntry_def)
  have g3: "isGenerating (sampleEntry 3 [] True)
            \<and> 3 \<in> oc_chapterNumber ` set (ol_chapters (sampleOutline [1, 2, 3, 4])) \<and> \<not> False"
    by (simp add: sampleEntry_def sampleOutline_def sampleChapter_def)
  from C6_done_skipped_generating_retried[OF f ol run e1] d1
  have a: "1 \<notin> set (invokedSince ?w ?w')" by blast
  from C6_done_skipped_generating_retried[OF f ol run e3] g3
  have b: "3 \<in> set (invokedSince ?w ?w')" by blast
  from a b show ?thesis by (rule conjI)
qed



text \<open>
  Claim C10 fails as stated. When a second run starts while a first one is suspended,
  both having been granted a sentinel, the second sentinel replaces the first in
  \<open>wakeLockRef\<close>: the end of the first run releases the second sentinel, the end of
  the second run releases nothing, and the first sentinel is never released. And when
  \<open>release\<close> throws, the sentinel stays in the ref, so that a following run whose
  own request fails calls \<open>release\<close> on it a second time.
\<close>

theorem C10_counterexample:
  "map_option wakeEvents
     (overlappingRuns
        (sampleEnv (alwaysAnswers (Some ''Text''))) ''p1''
        ((sampleEnv (alwaysAnswers (Some ''Text'')))\<lparr>wakeLockRequest := Granted 8\<rparr>) ''p2''
        standard
        (sampleWorld [sampleProject [1] [], (sampleProject [1] [])\<lparr>project_id := ''p2''\<rparr>]))
     = Some [Acquired 7, Acquired 8, Released 8]
   \<and> wakeEvents
       (startBookGeneration
          ((sampleEnv (alwaysAnswers (Some ''Text'')))\<lparr>wakeLockRequest := RequestThrows\<rparr>)
          ''p1'' standard
          (startBookGeneration
             ((sampleEnv (alwaysAnswers (Some ''Text'')))\<lparr>releaseThrows := True\<rparr>)
             ''p1'' standard (sampleWorld [sampleProject [1] []])))
     = [Acquired 7, Released 7, Released 7]"
  by code_simp

text \<open>
  Claim C10, amended. A run that executes with no other run overlapping it, for a
  project that exists and has an outline, always returns, whatever the wake-lock
  request does and whatever the backend throws. When the request at its start grants a
  sentinel, the wake-lock events of the run are that acquisition followed by one call
  of \<open>release\<close> on that sentinel, whatever the final value of \<open>hasFatalError\<close>. When
  the capability is absent or the request throws, the run acquires nothing, and calls
  \<open>release\<close> once on the sentinel that was in the ref at its start, if there was one.
\<close>

theorem C10_wake_lock_released_once:
  assumes "find (\<lambda>p. project_id p = projectId) (projects w) = Some project"
      and "outline project = Some ol"
  shows "\<exists>hasFatalError w'.
           startBookGeneration_run env projectId style w = Some (hasFatalError, w')
           \<and> wakeEvents w' = wakeEvents w @
               (case wakeLockRequest env of
                  Granted h \<Rightarrow> [Acquired h, Released h]
                | Unavailable \<Rightarrow> (case wakeLockRef w of None \<Rightarrow> [] | Some h0 \<Rightarrow> [Released h0])
                | RequestThrows \<Rightarrow> (case wakeLockRef w of None \<Rightarrow> [] | Some h0 \<Rightarrow> [Released h0]))"
proof -
  let ?w3 = "handleUpdateProject (project\<lparr>chapters := initialChapters project ol\<rparr>)
          (requestWakeLock env (w\<lparr>generatingProjectId := Some projectId\<rparr>))"
  from assms obtain cur' hf w4 where
    loop: "generationLoop env projectId project ol style (ol_chapters ol)
       (initialChapters project ol) False ?w3 = (cur', hf, w4)"
    and run: "startBookGeneration_run env projectId style w
       = Some (hf, releaseWakeLock env (w4\<lparr>generatingProjectId := None\<rparr>))"
    by (rule startBookGeneration_run_parts)
  from generationLoop_frame[OF loop]
  have ev: "wakeEvents w4 = wakeEvents ?w3" and ref: "wakeLockRef w4 = wakeLockRef ?w3"
    by simp_all
  have "wakeEvents (releaseWakeLock env (w4\<lparr>generatingProjectId := None\<rparr>)) = wakeEvents w @
               (case wakeLockRequest env of
                  Granted h \<Rightarrow> [Acquired h, Released h]
                | Unavailable \<Rightarrow> (case wakeLockRef w of None \<Rightarrow> [] | Some h0 \<Rightarrow> [Released h0])
                | RequestThrows \<Rightarrow> (case wakeLockRef w of None \<Rightarrow> [] | Some h0 \<Rightarrow> [Released h0]))"
    using ev ref
    by (cases "wakeLockRequest env"; cases "wakeLockRef w")
       (simp_all add: releaseWakeLock_def requestWakeLock_def handleUpdateProject_def)
  with run show ?thesis by blast
qed

theorem C10_wake_lock_released_once_witness:
  "wakeEvents (startBookGeneration (sampleEnv (failingAt 1 forbidden ''Text'')) ''p1'' standard
      (sampleWorld [sampleProject [1, 2, 3, 4] []])) = [Acquired 7, Released 7]
   \<and> invoked (startBookGeneration (sampleEnv (failingAt 1 forbidden ''Text'')) ''p1'' standard
      (sampleWorld [sampleProject [1, 2, 3, 4] []])) = [1, 2]
   \<and> wakeEvents (startBookGeneration
        ((sampleEnv (alwaysAnswers (Some ''Text'')))\<lparr>wakeLockRequest := Unavailable\<rparr>)
        ''p1'' standard (sampleWorld [sampleProject [1, 2, 3, 4] []])) = []"
proof -
  let ?env = "sampleEnv (failingAt 1 forbidden ''Text'')"
  let ?env2 = "(sampleEnv (alwaysAnswers (Some ''Text'')))\<lparr>wakeLockRequest := Unavailable\<rparr>"
  let ?p = "sampleProject [1, 2, 3, 4] []"
  let ?w = "sampleWorld [?p]"
  have f: "find (\<lambda>p. project_id p = ''p1'') (projects ?w) = Some ?p"
    by (simp add: sampleWorld_def sampleProject_def)
  have ol: "outline ?p = Some (sampleOutline [1, 2, 3, 4])"
    by (simp add: sampleProject_def)
  from C10_wake_lock_released_once[OF f ol, of ?env standard]
  obtain hf w' where run: "startBookGeneration_run ?env ''p1'' standard ?w = Some (hf, w')"
    and ev: "wakeEvents w' = wakeEvents ?w @
               (case wakeLockRequest ?env of
                  Granted h \<Rightarrow> [Acquired h, Released h]
                | Unavailable \<Rightarrow> (case wakeLockRef ?w of None \<Rightarrow> [] | Some h0 \<Rightarrow> [Released h0])
                | RequestThrows \<Rightarrow> (case wakeLockRef ?w of None \<Rightarrow> [] | Some h0 \<Rightarrow> [Released h0]))"
    by blast
  from run have "startBookGeneration ?env ''p1'' standard ?w = w'"
    by (simp add: startBookGeneration_def)
  moreover from ev have "wakeEvents w' = [Acquired 7, Released 7]"
    by (simp add: sampleEnv_def sampleWorld_def)
  ultimately have a: "wakeEvents (startBookGeneration ?env ''p1'' standard ?w)
                      = [Acquired 7, Released 7]"
    by simp
  have b: "invoked (startBookGeneration ?env ''p1'' standard ?w) = [1, 2]"
    by code_simp
  from C10_wake_lock_released_once[OF f ol, of ?env2 standard]
  obtain hf2 w2 where run2: "startBookGeneration_run ?env2 ''p1'' standard ?w = Some (hf2, w2)"
    and ev2: "wakeEvents w2 = wakeEvents ?w @
               (case wakeLockRequest ?env2 of
                  Granted h \<Rightarrow> [Acquired h, Released h]
                | Unavailable \<Rightarrow> (case wakeLockRef ?w of None \<Rightarrow> [] | Some h0 \<Rightarrow> [Released h0])
                | RequestThrows \<Rightarrow> (case wakeLockRef ?w of None \<Rightarrow> [] | Some h0 \<Rightarrow> [Released h0]))"
    by blast
  from run2 have "startBookGeneration ?env2 ''p1'' standard ?w = w2"
    by (simp add: startBookGeneration_def)
  moreover from ev2 have "wakeEvents w2 = []"
    by (simp add: sampleEnv_def sampleWorld_def)
  ultimately have c: "wakeEvents (startBookGeneration ?env2 ''p1'' standard ?w) = []"
    by simp
  from a b c show ?thesis by (intro conjI)
qed

end
